theory Spec2Isabelle
  imports Main "HOL-Library.Word" "HOL-Library.Signed_Division"
begin

section \<open>The decrypting file layer of \<open>wechat_vfs.cpp\<close>\<close>

text \<open>
  The file \<open>windows/runner/wechat_vfs.cpp\<close> installs a virtual file system in front of
  SQLite's default one. Its file objects forward every method to the real file, except
  \<open>xRead\<close>, which reads whole pages, decrypts them and copies the requested slice, and
  \<open>xWrite\<close> and \<open>xTruncate\<close>, which are refused. This theory embeds the registry
  of keys, the opening of a file, the read path and the refused writes, and proves the
  properties the design document states about them.

  Conventions of the embedding: \<open>unsigned char\<close> is \<open>8 word\<close>; the values of C's
  \<open>int\<close> and \<open>sqlite3_int64\<close> are mathematical integers, with the narrowing casts, the
  64-bit sum and the increment of the loop counter wrapped explicitly by \<open>int32\<close> and
  \<open>int64\<close> (elsewhere the source's arithmetic stays far from the bounds); C's division and
  remainder are \<open>sdiv\<close> and \<open>smod\<close> (truncation towards zero); a pointer into a
  buffer is the buffer together with an index; a \<open>std::map\<close> is a partial function.
\<close>

subsection \<open>Constants and machine integers\<close>

type_synonym byte = "8 word"
type_synonym bytes = "byte list"

definition SQLITE_OK :: int where "SQLITE_OK = 0"
definition SQLITE_ERROR :: int where "SQLITE_ERROR = 1"
definition SQLITE_READONLY :: int where "SQLITE_READONLY = 8"

definition PAGE_SIZE :: int where "PAGE_SIZE = 4096"
definition SALT_SIZE :: int where "SALT_SIZE = 16"
definition IV_SIZE :: int where "IV_SIZE = 16"
definition RESERVE_SIZE :: int where "RESERVE_SIZE = 80"

text \<open>The value of an integer expression once it is stored in a 32-bit \<open>int\<close> or in
  a 64-bit \<open>sqlite3_int64\<close> (two's complement wrap-around).\<close>

definition int32 :: "int \<Rightarrow> int" where
  "int32 x = (x + 2 ^ 31) mod 2 ^ 32 - 2 ^ 31"

definition int64 :: "int \<Rightarrow> int" where
  "int64 x = (x + 2 ^ 63) mod 2 ^ 64 - 2 ^ 63"

subsection \<open>Memory blocks\<close>

text \<open>
  \<open>store_at dst d src\<close> is the block \<open>dst\<close> after \<open>src\<close> has been written at index
  \<open>d\<close>. \<open>memcpy dst d src s n\<close> is C's \<open>memcpy(dst + d, src + s, n)\<close> and
  \<open>memset dst d v n\<close> is \<open>memset(dst + d, v, n)\<close>, for arguments inside the blocks
  (outside them the C functions have no defined behaviour).
\<close>

definition store_at :: "bytes \<Rightarrow> nat \<Rightarrow> bytes \<Rightarrow> bytes" where
  "store_at dst d src = take d dst @ src @ drop (d + length src) dst"

definition memcpy :: "bytes \<Rightarrow> int \<Rightarrow> bytes \<Rightarrow> int \<Rightarrow> int \<Rightarrow> bytes" where
  "memcpy dst d src s n = store_at dst (nat d) (take (nat n) (drop (nat s) src))"

definition memset :: "bytes \<Rightarrow> int \<Rightarrow> byte \<Rightarrow> int \<Rightarrow> bytes" where
  "memset dst d v n = store_at dst (nat d) (replicate (nat n) v)"

subsection \<open>Keys and the registry\<close>

record EncryptionKeys =
  encKey :: bytes
  macKey :: bytes

text \<open>\<open>g_encryption_keys\<close>: a \<open>std::map\<close> from normalized path to keys.\<close>

type_synonym registry = "string \<rightharpoonup> EncryptionKeys"

text \<open>
  \<open>normalize_path\<close> rewrites every character in place: a backslash becomes a slash, then
  a character between \<open>'A'\<close> and \<open>'Z'\<close> becomes \<open>c - 'A' + 'a'\<close>. Characters are compared
  by their codes.
\<close>

definition normalize_char :: "char \<Rightarrow> char" where
  "normalize_char c0 =
     (let c = (if c0 = CHR 0x5C then CHR ''/'' else c0)
      in if (of_char (CHR ''A'') :: int) \<le> of_char c \<and> (of_char c :: int) \<le> of_char (CHR ''Z'')
         then char_of ((of_char c :: int) - of_char (CHR ''A'') + of_char (CHR ''a''))
         else c)"

definition normalize_path :: "string \<Rightarrow> string" where
  "normalize_path path = map normalize_char path"

text \<open>
  \<open>hex_to_bytes\<close> walks the string two characters at a time and pushes one byte for each
  step. The byte is what \<open>sscanf_s(hex + i, "%2x", &byte)\<close> leaves in \<open>byte\<close>, narrowed
  to \<open>unsigned char\<close>; the scanner belongs to the C library and is a parameter here,
  applied to the rest of the string from index \<open>i\<close>.
\<close>

fun hex_to_bytes :: "(string \<Rightarrow> byte) \<Rightarrow> string \<Rightarrow> bytes" where
  "hex_to_bytes sscanf_2x [] = []"
| "hex_to_bytes sscanf_2x [c] = [sscanf_2x [c]]"
| "hex_to_bytes sscanf_2x (c # d # hex) = sscanf_2x (c # d # hex) # hex_to_bytes sscanf_2x hex"

definition wechat_vfs_register_keys ::
  "(string \<Rightarrow> byte) \<Rightarrow> registry \<Rightarrow> string \<Rightarrow> string \<Rightarrow> string \<Rightarrow> registry" where
  "wechat_vfs_register_keys sscanf_2x g db_path enc_key_hex mac_key_hex =
     (let normalized = normalize_path db_path;
          keys = \<lparr>encKey = hex_to_bytes sscanf_2x enc_key_hex,
                  macKey = hex_to_bytes sscanf_2x mac_key_hex\<rparr>
      in g(normalized \<mapsto> keys))"

definition wechat_vfs_unregister_keys :: "registry \<Rightarrow> string \<Rightarrow> registry" where
  "wechat_vfs_unregister_keys g db_path =
     (let normalized = normalize_path db_path in g(normalized := None))"

definition wechat_vfs_get_callback_count :: "registry \<Rightarrow> int" where
  "wechat_vfs_get_callback_count g = int32 (int (card (dom g)))"

subsection \<open>Files\<close>

text \<open>
  The real file, as this layer uses it. \<open>xRead f iAmt iOfst\<close> gives the status of the
  real file's \<open>xRead\<close> and the bytes it stored from the start of the buffer it was given;
  \<open>xFileSize f\<close> gives the status and the size reported by the real file's
  \<open>xFileSize\<close>.
\<close>

record sqlite3_file =
  xRead :: "int \<Rightarrow> int \<Rightarrow> int \<times> bytes"
  xFileSize :: "int \<times> int"

text \<open>
  \<open>struct WeChatFile\<close>. The pointer \<open>keys\<close> is \<open>None\<close> when null and otherwise the
  record it points to; the record belongs to the registry, and the handle holds what the
  pointer gives as long as the registry is left alone. \<open>wechat_read\<close> also tests a
  member \<open>decrypt_cb\<close> that the declaration of the struct in the source does not list;
  it is a field here, \<open>True\<close> when the member is non-null, and no function of the source
  assigns it.
\<close>

record WeChatFile =
  real_file :: sqlite3_file
  path :: string
  keys :: "EncryptionKeys option"
  decrypt_cb :: bool

text \<open>
  \<open>wechat_open\<close>. The default file system's \<open>xOpen\<close> is a parameter: from the name and
  the flags it gives a status, the real file and the output flags. \<open>zName\<close> is \<open>None\<close>
  for a null pointer. On success the fields of the handle \<open>p\<close> are assigned as the source
  assigns them; on failure the status is returned and there is no handle.
\<close>

definition wechat_open ::
  "(string option \<Rightarrow> int \<Rightarrow> int \<times> sqlite3_file \<times> int) \<Rightarrow> registry \<Rightarrow>
     WeChatFile \<Rightarrow> string option \<Rightarrow> int \<Rightarrow> int \<times> WeChatFile option \<times> int" where
  "wechat_open default_xOpen g p zName flags =
     (case default_xOpen zName flags of (rc, rf, pOutFlags) \<Rightarrow>
        if rc \<noteq> SQLITE_OK then (rc, None, pOutFlags)
        else (case zName of
                Some name \<Rightarrow>
                  (let normalized = normalize_path name
                   in (SQLITE_OK,
                       Some (p\<lparr>real_file := rf, path := name, keys := g normalized\<rparr>),
                       pOutFlags))
              | None \<Rightarrow>
                  (SQLITE_OK, Some (p\<lparr>real_file := rf, keys := None\<rparr>), pOutFlags)))"

text \<open>
  \<open>wechat_write\<close> and \<open>wechat_truncate\<close> return a constant and touch nothing; the handle
  (and with it the real file) is returned as it was given. \<open>wechat_file_size\<close> forwards
  to the real file.
\<close>

definition wechat_write :: "WeChatFile \<Rightarrow> bytes \<Rightarrow> int \<Rightarrow> int \<Rightarrow> int \<times> WeChatFile" where
  "wechat_write p zBuf iAmt iOfst = (SQLITE_READONLY, p)"

definition wechat_truncate :: "WeChatFile \<Rightarrow> int \<Rightarrow> int \<times> WeChatFile" where
  "wechat_truncate p size_arg = (SQLITE_READONLY, p)"

definition wechat_file_size :: "WeChatFile \<Rightarrow> int \<times> int" where
  "wechat_file_size p = xFileSize (real_file p)"

subsection \<open>The decryption engine\<close>

text \<open>
  \<open>aes_decrypt_cbc\<close> hands its arguments to the Windows CNG library. The library is a
  parameter \<open>bcrypt\<close>: from the 32 bytes of the key, the \<open>IV_SIZE\<close> bytes of the
  initialization vector and the \<open>encrypted_len\<close> bytes of input it gives, first,
  \<open>None\<close> when any of its calls fails and the bytes it stored at \<open>decrypted\<close>
  otherwise, and second, what the buffer of the vector holds after the call. The source
  hands \<open>iv\<close> to \<open>BCryptDecrypt\<close> through the cast \<open>(PBYTE)iv\<close>, as a buffer of
  \<open>IV_SIZE\<close> bytes that the library may write; the key and the input are read only.
  The arguments \<open>encrypted\<close>, \<open>key\<close> and \<open>iv\<close> are the memory from the pointer
  on, and the result is the success flag, the memory at \<open>decrypted\<close> and the memory at
  \<open>iv\<close> after the call.
\<close>

type_synonym cng = "bytes \<Rightarrow> bytes \<Rightarrow> bytes \<Rightarrow> bytes option \<times> bytes"

definition aes_decrypt_cbc ::
  "cng \<Rightarrow> bytes \<Rightarrow> int \<Rightarrow> bytes \<Rightarrow> bytes \<Rightarrow> bytes \<Rightarrow> bool \<times> bytes \<times> bytes" where
  "aes_decrypt_cbc bcrypt encrypted encrypted_len key iv decrypted =
     (case bcrypt (take 32 key) (take (nat IV_SIZE) iv) (take (nat encrypted_len) encrypted) of
        (result, iv_after) \<Rightarrow>
          (let iv1 = store_at iv 0 (take (nat IV_SIZE) iv_after)
           in case result of
                None \<Rightarrow> (False, decrypted, iv1)
              | Some plain \<Rightarrow> (True, store_at decrypted 0 plain, iv1)))"

subsection \<open>Reading\<close>

text \<open>
  The thread-local page buffers: \<open>None\<close> is the null pointer, otherwise the contents.
  \<open>ensure_buffers_allocated\<close> allocates the missing ones; what \<open>new unsigned
  char[PAGE_SIZE]\<close> holds is the parameter \<open>fresh\<close>, one block for each buffer.
\<close>

record thread_buffers =
  g_encrypted_buffer :: "bytes option"
  g_decrypted_buffer :: "bytes option"

definition ensure_buffers_allocated :: "bytes \<times> bytes \<Rightarrow> thread_buffers \<Rightarrow> thread_buffers" where
  "ensure_buffers_allocated fresh t =
     \<lparr>g_encrypted_buffer =
        (case g_encrypted_buffer t of None \<Rightarrow> Some (fst fresh) | Some b \<Rightarrow> Some b),
      g_decrypted_buffer =
        (case g_decrypted_buffer t of None \<Rightarrow> Some (snd fresh) | Some b \<Rightarrow> Some b)\<rparr>"

text \<open>The variables of the loop of \<open>wechat_read\<close> that change from page to page;
  \<open>output_buf\<close> is the block the local \<open>output\<close> points to, the caller's buffer.\<close>

record read_state =
  encrypted_buffer :: bytes
  decrypted_buffer :: bytes
  output_buf :: bytes
  bytes_written :: int

text \<open>The locals \<open>offset\<close>, \<open>iv\<close> and \<open>encrypted_len\<close> of the branch that decrypts.\<close>

definition offset :: "int \<Rightarrow> int" where
  "offset page_num = (if page_num = 0 then SALT_SIZE else 0)"

definition iv :: "bytes \<Rightarrow> bytes" where
  "iv encrypted = drop (nat (PAGE_SIZE - RESERVE_SIZE)) encrypted"

definition encrypted_len :: "int \<Rightarrow> int" where
  "encrypted_len page_num = PAGE_SIZE - RESERVE_SIZE - offset page_num"

text \<open>
  The part of the loop body that fills the decrypted buffer from the encrypted one:
  the result is the encrypted buffer after the engine's call (the vector is a part of
  it) and then \<open>Inl\<close> with the status of an early return or \<open>Inr\<close> with the
  decrypted buffer.
\<close>

definition decrypt_page ::
  "cng \<Rightarrow> EncryptionKeys option \<Rightarrow> int \<Rightarrow> bytes \<Rightarrow> bytes \<Rightarrow> bytes \<times> (int + bytes)" where
  "decrypt_page bcrypt ks page_num enc dec =
     (case ks of
        None \<Rightarrow> (enc, Inr (memcpy dec 0 enc 0 PAGE_SIZE))
      | Some k \<Rightarrow>
          (case aes_decrypt_cbc bcrypt (drop (nat (offset page_num)) enc) (encrypted_len page_num)
                  (encKey k) (iv enc) dec of
             (ok, dec1, iv1) \<Rightarrow>
               (let enc1 = take (nat (PAGE_SIZE - RESERVE_SIZE)) enc @ iv1
                in if \<not> ok then (enc1, Inl SQLITE_ERROR)
                   else
                     (let dec2 = memcpy dec1 (encrypted_len page_num) enc1
                                   (PAGE_SIZE - RESERVE_SIZE) RESERVE_SIZE
                      in (enc1,
                          Inr (if page_num = 0
                               then memset dec2 (encrypted_len page_num + RESERVE_SIZE) 0 SALT_SIZE
                               else dec2))))))"

text \<open>
  The locals \<open>copy_offset\<close> and \<open>bytes_to_copy\<close> at the end of the loop body, as
  functions of what they are computed from: the start page and its offset, the page, the
  amount asked for and the bytes written so far.
\<close>

definition copy_offset :: "int \<Rightarrow> int \<Rightarrow> int \<Rightarrow> int" where
  "copy_offset start_page start_offset page_num =
     (if page_num = start_page then start_offset else 0)"

definition bytes_to_copy :: "int \<Rightarrow> int \<Rightarrow> int \<Rightarrow> int" where
  "bytes_to_copy iAmt written c_offset =
     (let bytes_in_page = PAGE_SIZE - c_offset;
          bytes_remaining = iAmt - written
      in if bytes_in_page < bytes_remaining then bytes_in_page else bytes_remaining)"

text \<open>
  One pass through the body of the loop, for the page \<open>page_num\<close>: read the page from the
  real file, decrypt it, copy the slice. \<open>Inl\<close> is an early return with its status and
  the state at that point, \<open>Inr\<close> the state at the end of the body.
\<close>

definition read_page ::
  "cng \<Rightarrow> WeChatFile \<Rightarrow> int \<Rightarrow> int \<Rightarrow> int \<Rightarrow> int \<Rightarrow> read_state \<Rightarrow>
     (int \<times> read_state) + read_state" where
  "read_page bcrypt p iAmt start_page start_offset page_num s =
     (let page_offset = page_num * PAGE_SIZE
      in case xRead (real_file p) PAGE_SIZE page_offset of (rc, stored) \<Rightarrow>
        (let s1 = s\<lparr>encrypted_buffer := store_at (encrypted_buffer s) 0 stored\<rparr>
         in if rc \<noteq> SQLITE_OK then Inl (rc, s1)
            else
              (case decrypt_page bcrypt (keys p) page_num (encrypted_buffer s1)
                      (decrypted_buffer s1) of
                 (enc1, Inl err) \<Rightarrow> Inl (err, s1\<lparr>encrypted_buffer := enc1\<rparr>)
               | (enc1, Inr dec) \<Rightarrow>
                   (let c_offset = copy_offset start_page start_offset page_num;
                        to_copy = bytes_to_copy iAmt (bytes_written s1) c_offset
                    in Inr (s1\<lparr>encrypted_buffer := enc1, decrypted_buffer := dec,
                               output_buf := memcpy (output_buf s1) (bytes_written s1) dec c_offset
                                               to_copy,
                               bytes_written := bytes_written s1 + to_copy\<rparr>)))))"

text \<open>
  The loop \<open>for (int page_num = start_page; page_num <= end_page; page_num++)\<close>. The
  counter is a 32-bit \<open>int\<close>: with \<open>end_page\<close> at its largest value the test never
  fails, so the loop is a partial function and \<open>None\<close> stands for a read that does not
  return.
\<close>

partial_function (option) read_pages ::
  "cng \<Rightarrow> WeChatFile \<Rightarrow> int \<Rightarrow> int \<Rightarrow> int \<Rightarrow> int \<Rightarrow> int \<Rightarrow> read_state \<Rightarrow>
     (int \<times> read_state) option" where
  "read_pages bcrypt p iAmt start_page end_page start_offset page_num s =
     (if page_num \<le> end_page
      then (case read_page bcrypt p iAmt start_page start_offset page_num s of
              Inl r \<Rightarrow> Some r
            | Inr s' \<Rightarrow>
                read_pages bcrypt p iAmt start_page end_page start_offset (int32 (page_num + 1)) s')
      else Some (SQLITE_OK, s))"

text \<open>
  \<open>wechat_read\<close>. The result is the status, the caller's buffer and the thread-local
  buffers after the call. Without a decrypt callback the request goes to the real file
  as it is. Otherwise the pages from \<open>start_page\<close> to \<open>end_page\<close> are processed.
\<close>

definition wechat_read ::
  "cng \<Rightarrow> bytes \<times> bytes \<Rightarrow> WeChatFile \<Rightarrow> thread_buffers \<Rightarrow> bytes \<Rightarrow> int \<Rightarrow> int \<Rightarrow>
     (int \<times> bytes \<times> thread_buffers) option" where
  "wechat_read bcrypt fresh p t zBuf iAmt iOfst =
     (if \<not> decrypt_cb p
      then (case xRead (real_file p) iAmt iOfst of (rc, stored) \<Rightarrow>
              Some (rc, store_at zBuf 0 stored, t))
      else
        (let start_page = int32 (iOfst sdiv PAGE_SIZE);
             end_page = int32 (int64 (int64 (iOfst + iAmt) - 1) sdiv PAGE_SIZE);
             start_offset = int32 (iOfst smod PAGE_SIZE);
             t1 = ensure_buffers_allocated fresh t;
             s0 = \<lparr>encrypted_buffer = the (g_encrypted_buffer t1),
                   decrypted_buffer = the (g_decrypted_buffer t1),
                   output_buf = zBuf, bytes_written = 0\<rparr>
         in case read_pages bcrypt p iAmt start_page end_page start_offset start_page s0 of
              None \<Rightarrow> None
            | Some (rc, s) \<Rightarrow>
                Some (rc, output_buf s,
                      \<lparr>g_encrypted_buffer = Some (encrypted_buffer s),
                       g_decrypted_buffer = Some (decrypted_buffer s)\<rparr>)))"

subsection \<open>Notions used to state the properties\<close>

text \<open>
  Two spellings of a path differ only in the case of ASCII letters or in the direction of
  the separators when they have the same length and, position by position, the characters
  are equal, or both are separators, or one is an upper-case ASCII letter and the other
  the same letter in lower case (32 code points above).
\<close>

definition same_spelling_char :: "char \<Rightarrow> char \<Rightarrow> bool" where
  "same_spelling_char c d =
     (c = d
      \<or> (c = CHR 0x5C \<or> c = CHR ''/'') \<and> (d = CHR 0x5C \<or> d = CHR ''/'')
      \<or> (65 \<le> (of_char c :: int) \<and> (of_char c :: int) \<le> 90
           \<and> (of_char d :: int) = of_char c + 32)
      \<or> (65 \<le> (of_char d :: int) \<and> (of_char d :: int) \<le> 90
           \<and> (of_char c :: int) = of_char d + 32))"

definition same_spelling :: "string \<Rightarrow> string \<Rightarrow> bool" where
  "same_spelling p q = list_all2 same_spelling_char p q"

text \<open>
  What the layer expects of its two collaborators. A decryption in CBC mode without
  padding gives as many bytes as it was given. A page read of the real file that reports
  success has stored the whole page.
\<close>

definition length_preserving :: "cng \<Rightarrow> bool" where
  "length_preserving bcrypt =
     (\<forall>key v input plain v1.
        bcrypt key v input = (Some plain, v1) \<longrightarrow> length plain = length input)"

definition stores_whole_pages :: "sqlite3_file \<Rightarrow> bool" where
  "stores_whole_pages f =
     (\<forall>iOfst stored. xRead f PAGE_SIZE iOfst = (SQLITE_OK, stored) \<longrightarrow>
        length stored = nat PAGE_SIZE)"

text \<open>
  \<open>only_when accepted bcrypt\<close> is the engine \<open>bcrypt\<close> made to refuse every call whose
  key, initialization vector and input are not \<open>accepted\<close>. A read that comes out the
  same with both engines has made accepted calls only.
\<close>

definition only_when :: "(bytes \<Rightarrow> bytes \<Rightarrow> bytes \<Rightarrow> bool) \<Rightarrow> cng \<Rightarrow> cng" where
  "only_when accepted bcrypt key v input =
     (if accepted key v input then bcrypt key v input else (None, v))"

text \<open>
  The thread's buffers hold a page each once \<open>ensure_buffers_allocated\<close> has run: the
  blocks that \<open>new\<close> gives, and the buffers kept from earlier reads, have
  \<open>PAGE_SIZE\<close> bytes.
\<close>

definition page_sized :: "bytes \<times> bytes \<Rightarrow> thread_buffers \<Rightarrow> bool" where
  "page_sized fresh t =
     (length (the (g_encrypted_buffer (ensure_buffers_allocated fresh t))) = nat PAGE_SIZE \<and>
      length (the (g_decrypted_buffer (ensure_buffers_allocated fresh t))) = nat PAGE_SIZE)"

text \<open>
  The decrypted file, page by page and without the loop: \<open>raw_page\<close> is page
  \<open>j\<close> of the real file when its read succeeds; \<open>decrypted_page\<close> is that page
  decrypted whole (the plaintext of its ciphertext region under the vector found at
  byte 4016, then the 80 reserve bytes as the engine's call leaves them, the vector
  being the first 16 of them, then 16 zeros on page 0); \<open>decrypted_byte\<close> is the
  byte at a position of the decrypted file and \<open>decrypted_range\<close> the \<open>n\<close>
  bytes from a position on.
\<close>

definition raw_page :: "sqlite3_file \<Rightarrow> int \<Rightarrow> bytes option" where
  "raw_page f j =
     (case xRead f PAGE_SIZE (j * PAGE_SIZE) of (rc, stored) \<Rightarrow>
        if rc = SQLITE_OK then Some stored else None)"

definition decrypted_page :: "cng \<Rightarrow> EncryptionKeys \<Rightarrow> sqlite3_file \<Rightarrow> int \<Rightarrow> bytes option" where
  "decrypted_page bcrypt k f j =
     (case raw_page f j of
        None \<Rightarrow> None
      | Some raw \<Rightarrow>
          (case bcrypt (take 32 (encKey k)) (take 16 (drop 4016 raw))
                  (take (if j = 0 then 4000 else 4016) (drop (if j = 0 then 16 else 0) raw)) of
             (None, v1) \<Rightarrow> None
           | (Some plain, v1) \<Rightarrow>
               Some (plain @ drop 4016 (store_at raw 4016 (take 16 v1)) @
                     (if j = 0 then replicate 16 0 else []))))"

definition decrypted_byte :: "cng \<Rightarrow> EncryptionKeys \<Rightarrow> sqlite3_file \<Rightarrow> int \<Rightarrow> byte" where
  "decrypted_byte bcrypt k f i =
     the (decrypted_page bcrypt k f (i div 4096)) ! nat (i mod 4096)"

definition decrypted_range ::
  "cng \<Rightarrow> EncryptionKeys \<Rightarrow> sqlite3_file \<Rightarrow> int \<Rightarrow> int \<Rightarrow> bytes" where
  "decrypted_range bcrypt k f ofs n =
     map (\<lambda>i. decrypted_byte bcrypt k f (ofs + int i)) [0..<nat n]"

text \<open>
  The number of bytes a read of \<open>n\<close> bytes at \<open>ofs\<close> has written when its loop
  reaches page \<open>j\<close>.
\<close>

definition written_before :: "int \<Rightarrow> int \<Rightarrow> int \<Rightarrow> int" where
  "written_before ofs n j = min n (max ofs (j * 4096) - ofs)"

subsection \<open>Example objects\<close>

text \<open>
  A real file with the given contents, read as SQLite's files are: a request inside the
  file succeeds, any other one reports a short read and fills the missing bytes with
  zeros.
\<close>

definition SQLITE_IOERR_SHORT_READ :: int where "SQLITE_IOERR_SHORT_READ = 522"

definition disk_file :: "bytes \<Rightarrow> sqlite3_file" where
  "disk_file content =
     \<lparr>xRead = (\<lambda>iAmt iOfst.
        if 0 \<le> iOfst \<and> iOfst + iAmt \<le> int (length content)
        then (SQLITE_OK, take (nat iAmt) (drop (nat iOfst) content))
        else (SQLITE_IOERR_SHORT_READ,
              take (nat iAmt) (drop (nat iOfst) content @ replicate (nat iAmt) 0))),
      xFileSize = (SQLITE_OK, int (length content))\<rparr>"

text \<open>An engine that is not AES but has its shape: it wants a key of 32 bytes and a
  vector of 16, and adds the first byte of the vector to every byte of the input.\<close>

definition toy_cng :: cng where
  "toy_cng key v input =
     (if length key = 32 \<and> length v = 16 then Some (map (\<lambda>b. b + hd v) input) else None, v)"

text \<open>The same engine when it chains as the library documents for its vector buffer: after
  the call the buffer holds the last 16 bytes of the input.\<close>

definition chaining_cng :: cng where
  "chaining_cng key v input = (fst (toy_cng key v input), drop (length input - 16) input)"

definition example_keys :: EncryptionKeys where
  "example_keys = \<lparr>encKey = replicate 32 5, macKey = []\<rparr>"

text \<open>A page whose reserve region starts with sixteen bytes 1 and ends with bytes 2.\<close>

definition example_page :: bytes where
  "example_page = replicate 4016 0 @ replicate 16 1 @ replicate 64 2"

definition example_handle :: "sqlite3_file \<Rightarrow> EncryptionKeys option \<Rightarrow> bool \<Rightarrow> WeChatFile" where
  "example_handle f ks cb = \<lparr>real_file = f, path = ''/a/db'', keys = ks, decrypt_cb = cb\<rparr>"

definition no_buffers :: thread_buffers where
  "no_buffers = \<lparr>g_encrypted_buffer = None, g_decrypted_buffer = None\<rparr>"

definition fresh_memory :: "bytes \<times> bytes" where
  "fresh_memory = (replicate 4096 170, replicate 4096 187)"

text \<open>A file of \<open>2 ^ 43 + 4096\<close> bytes, all of them 7.\<close>

definition huge_file :: sqlite3_file where
  "huge_file = disk_file (replicate 8796093026304 7)"

text \<open>An open file of two pages, with keys and with a decrypt callback.\<close>

definition two_page_handle :: WeChatFile where
  "two_page_handle =
     example_handle (disk_file (example_page @ example_page)) (Some example_keys) True"


text \<open>A scanner for two hexadecimal digits, and 0 where there is no digit.\<close>

definition hex_value :: "char \<Rightarrow> nat option" where
  "hex_value c =
     (let n = (of_char c :: nat)
      in if 48 \<le> n \<and> n \<le> 57 then Some (n - 48)
         else if 97 \<le> n \<and> n \<le> 102 then Some (n - 87)
         else if 65 \<le> n \<and> n \<le> 70 then Some (n - 55)
         else None)"

fun scan_two_digits :: "string \<Rightarrow> byte" where
  "scan_two_digits [] = 0"
| "scan_two_digits (c # cs) =
     (case hex_value c of
        None \<Rightarrow> 0
      | Some a \<Rightarrow>
          (case cs of
             [] \<Rightarrow> of_nat a
           | d # _ \<Rightarrow> (case hex_value d of None \<Rightarrow> of_nat a | Some b \<Rightarrow> of_nat (16 * a + b))))"

definition windows_path :: string where
  "windows_path = ''C:'' @ [CHR 0x5C] @ ''Data'' @ [CHR 0x5C] @ ''db.sqlite''"

definition always_opens :: "sqlite3_file \<Rightarrow> string option \<Rightarrow> int \<Rightarrow> int \<times> sqlite3_file \<times> int" where
  "always_opens f zName flags = (SQLITE_OK, f, flags)"

section \<open>Properties\<close>

subsection \<open>Refused writes\<close>

text \<open>
  C7. Every write and every truncate on an open file, with or without keys, returns the
  read-only status 8 whatever the real file would allow, and leaves the real file and the
  size it reports as they were.
\<close>

theorem write_truncate_read_only:
  "wechat_write p zBuf iAmt iOfst = (8, p) \<and>
   wechat_truncate p size_arg = (8, p) \<and>
   SQLITE_READONLY = 8 \<and>
   real_file (snd (wechat_write p zBuf iAmt iOfst)) = real_file p \<and>
   real_file (snd (wechat_truncate p size_arg)) = real_file p \<and>
   wechat_file_size (snd (wechat_write p zBuf iAmt iOfst)) = wechat_file_size p \<and>
   wechat_file_size (snd (wechat_truncate p size_arg)) = wechat_file_size p"
  by (simp add: wechat_write_def wechat_truncate_def SQLITE_READONLY_def)

subsection \<open>Paths and the registry\<close>

lemma backslash_code: "(c = CHR 0x5C) = ((of_char c :: int) = 92)"
proof -
  have "(of_char (CHR 0x5C) :: int) = 92" by simp
  then show ?thesis by (metis of_char_eq_iff)
qed

lemma normalize_char_upper:
  assumes "65 \<le> (of_char c :: int)" "(of_char c :: int) \<le> 90"
    and "(of_char d :: int) = of_char c + 32"
  shows "normalize_char c = d" "normalize_char d = d"
proof -
  have "c \<noteq> CHR 0x5C" using assms by (simp add: backslash_code)
  then have "normalize_char c = char_of ((of_char c :: int) + 32)"
    using assms by (simp add: normalize_char_def)
  also have "\<dots> = char_of (of_char d :: int)" using assms by simp
  finally show "normalize_char c = d" by simp
  have "d \<noteq> CHR 0x5C" using assms by (simp add: backslash_code)
  then show "normalize_char d = d" using assms by (simp add: normalize_char_def)
qed

lemma normalize_char_separator:
  "normalize_char (CHR 0x5C) = CHR ''/''" "normalize_char (CHR ''/'') = CHR ''/''"
  by (simp_all add: normalize_char_def)

lemma normalize_char_same_spelling:
  "same_spelling_char c d \<Longrightarrow> normalize_char c = normalize_char d"
  unfolding same_spelling_char_def
  by (elim disjE conjE) (simp_all add: normalize_char_separator normalize_char_upper)

lemma normalize_path_same_spelling:
  "same_spelling p q \<Longrightarrow> normalize_path p = normalize_path q"
  unfolding same_spelling_def normalize_path_def
  by (induction p q rule: list_all2_induct) (simp_all add: normalize_char_same_spelling)

lemma normalize_char_cases:
  "normalize_char c =
     (if c = CHR 0x5C then CHR ''/''
      else if 65 \<le> (of_char c :: int) \<and> (of_char c :: int) \<le> 90
           then char_of ((of_char c :: int) + 32)
           else c)"
  by (simp add: normalize_char_def)

text \<open>
  C8. Normalization keeps the length of a path and rewrites it character by character: a
  backslash becomes a slash, an ASCII upper-case letter (codes 65 to 90) becomes the
  lower-case letter 32 codes above, and every other character stays. Registration and
  opening both apply it, so when two spellings differ only in the case of ASCII letters
  or in the direction of the separators, they normalize to the same string, the record
  registered under one is stored under that string, and it is the record of a file
  opened under the other.
\<close>

theorem spellings_resolve_to_same_record:
  assumes "same_spelling p q"
    and "default_xOpen (Some q) flags = (SQLITE_OK, rf, out_flags)"
  shows "normalize_path p =
      map (\<lambda>c. if c = CHR 0x5C then CHR ''/''
               else if 65 \<le> (of_char c :: int) \<and> (of_char c :: int) \<le> 90
                    then char_of ((of_char c :: int) + 32)
                    else c) p \<and>
    normalize_path q =
      map (\<lambda>c. if c = CHR 0x5C then CHR ''/''
               else if 65 \<le> (of_char c :: int) \<and> (of_char c :: int) \<le> 90
                    then char_of ((of_char c :: int) + 32)
                    else c) q \<and>
    length (normalize_path p) = length p \<and>
    normalize_path p = normalize_path q \<and>
    wechat_vfs_register_keys sc g p e m =
      g(normalize_path p \<mapsto> \<lparr>encKey = hex_to_bytes sc e, macKey = hex_to_bytes sc m\<rparr>) \<and>
    wechat_open default_xOpen (wechat_vfs_register_keys sc g p e m) h (Some q) flags =
      (SQLITE_OK,
       Some (h\<lparr>real_file := rf, path := q,
               keys := Some \<lparr>encKey = hex_to_bytes sc e, macKey = hex_to_bytes sc m\<rparr>\<rparr>),
       out_flags)"
proof -
  have n: "normalize_path p = normalize_path q"
    using assms(1) by (rule normalize_path_same_spelling)
  have c: "\<And>r. normalize_path r =
      map (\<lambda>c. if c = CHR 0x5C then CHR ''/''
               else if 65 \<le> (of_char c :: int) \<and> (of_char c :: int) \<le> 90
                    then char_of ((of_char c :: int) + 32)
                    else c) r"
    unfolding normalize_path_def by (rule map_cong) (simp_all add: normalize_char_cases)
  have l: "length (normalize_path p) = length p"
    by (simp add: normalize_path_def)
  have r: "wechat_vfs_register_keys sc g p e m =
      g(normalize_path p \<mapsto> \<lparr>encKey = hex_to_bytes sc e, macKey = hex_to_bytes sc m\<rparr>)"
    by (simp add: wechat_vfs_register_keys_def)
  have w: "wechat_open default_xOpen (wechat_vfs_register_keys sc g p e m) h (Some q) flags =
      (SQLITE_OK,
       Some (h\<lparr>real_file := rf, path := q,
               keys := Some \<lparr>encKey = hex_to_bytes sc e, macKey = hex_to_bytes sc m\<rparr>\<rparr>),
       out_flags)"
    using assms(2) n by (simp add: wechat_open_def wechat_vfs_register_keys_def)
  show ?thesis
    using c [of p] c [of q] l n r w by (intro conjI)
qed

text \<open>
  The example of the design document: keys registered for the path \<open>C:/Data/db.sqlite\<close>
  written with backslashes are found when \<open>c:/data/DB.sqlite\<close> is opened.
\<close>

lemma windows_path_spelling: "same_spelling windows_path ''c:/data/DB.sqlite''"
  by (simp add: same_spelling_def same_spelling_char_def windows_path_def)

theorem spellings_resolve_to_same_record_witness:
  "same_spelling windows_path ''c:/data/DB.sqlite'' \<and>
   normalize_path windows_path = ''c:/data/db.sqlite'' \<and>
   normalize_path ''c:/data/DB.sqlite'' = ''c:/data/db.sqlite'' \<and>
   wechat_open (always_opens (disk_file []))
      (wechat_vfs_register_keys scan_two_digits Map.empty windows_path ''0aff'' ''10'')
      (example_handle (disk_file [1]) None False) (Some ''c:/data/DB.sqlite'') 1 =
    (SQLITE_OK,
     Some \<lparr>real_file = disk_file [], path = ''c:/data/DB.sqlite'',
           keys = Some \<lparr>encKey = [10, 255], macKey = [16]\<rparr>, decrypt_cb = False\<rparr>, 1)"
proof -
  have o: "always_opens (disk_file []) (Some ''c:/data/DB.sqlite'') 1 = (SQLITE_OK, disk_file [], 1)"
    by (simp add: always_opens_def)
  have hx: "hex_to_bytes scan_two_digits ''0aff'' = [10, 255]"
    "hex_to_bytes scan_two_digits ''10'' = [16]"
    by (simp_all add: hex_value_def)
  note t = spellings_resolve_to_same_record
        [where p = windows_path and q = "''c:/data/DB.sqlite''"
           and default_xOpen = "always_opens (disk_file [])" and flags = 1
           and rf = "disk_file []" and out_flags = 1 and sc = scan_two_digits
           and g = Map.empty and e = "''0aff''" and m = "''10''"
           and h = "example_handle (disk_file [1]) None False", OF windows_path_spelling o]
  have q: "normalize_path ''c:/data/DB.sqlite'' = ''c:/data/db.sqlite''"
    using t [THEN conjunct2, THEN conjunct1] by (simp add: char_of_def)
  have p: "normalize_path windows_path = ''c:/data/db.sqlite''"
    using t [THEN conjunct2, THEN conjunct2, THEN conjunct2, THEN conjunct1] q by simp
  have w: "wechat_open (always_opens (disk_file []))
      (wechat_vfs_register_keys scan_two_digits Map.empty windows_path ''0aff'' ''10'')
      (example_handle (disk_file [1]) None False) (Some ''c:/data/DB.sqlite'') 1 =
    (SQLITE_OK,
     Some \<lparr>real_file = disk_file [], path = ''c:/data/DB.sqlite'',
           keys = Some \<lparr>encKey = [10, 255], macKey = [16]\<rparr>, decrypt_cb = False\<rparr>, 1)"
    using t [THEN conjunct2, THEN conjunct2, THEN conjunct2, THEN conjunct2, THEN conjunct2]
    by (simp add: example_handle_def hx del: hex_to_bytes.simps)
  show ?thesis
    using windows_path_spelling p q w by (intro conjI)
qed

text \<open>
  C9. Registration has no failure: it always leaves a record under the normalized path,
  and a later registration of the same normalized path replaces the earlier one, so a
  lookup gives the later keys; other paths keep what they had. Unregistering removes the
  record, so a lookup of the path finds nothing, and changes nothing when there was no
  record.
\<close>

theorem register_unregister:
  assumes "normalize_path p' = normalize_path p"
    and "g0 (normalize_path p) = None"
    and "normalize_path q \<noteq> normalize_path p"
  shows
    "wechat_vfs_register_keys sc (wechat_vfs_register_keys sc g p e1 m1) p' e2 m2 (normalize_path p) =
       Some \<lparr>encKey = hex_to_bytes sc e2, macKey = hex_to_bytes sc m2\<rparr> \<and>
     wechat_vfs_register_keys sc (wechat_vfs_register_keys sc g p e1 m1) p' e2 m2 =
       wechat_vfs_register_keys sc g p' e2 m2 \<and>
     wechat_vfs_register_keys sc g p e1 m1 (normalize_path q) = g (normalize_path q) \<and>
     wechat_vfs_unregister_keys (wechat_vfs_register_keys sc g p e1 m1) p' (normalize_path p) = None \<and>
     wechat_vfs_unregister_keys g p (normalize_path q) = g (normalize_path q) \<and>
     wechat_vfs_unregister_keys g0 p = g0"
  using assms
  by (auto simp add: wechat_vfs_register_keys_def wechat_vfs_unregister_keys_def)

theorem register_unregister_witness:
  "normalize_path ''/A/DB'' = normalize_path ''/a/db'' \<and>
   (Map.empty :: registry) (normalize_path ''/a/db'') = None \<and>
   normalize_path ''/a/other'' \<noteq> normalize_path ''/a/db'' \<and>
   wechat_vfs_register_keys scan_two_digits
     (wechat_vfs_register_keys scan_two_digits Map.empty ''/a/db'' ''01'' ''02'') ''/A/DB'' ''03'' ''04''
     (normalize_path ''/a/db'') = Some \<lparr>encKey = [3], macKey = [4]\<rparr> \<and>
   wechat_vfs_unregister_keys
     (wechat_vfs_register_keys scan_two_digits Map.empty ''/a/db'' ''01'' ''02'') ''/A/DB''
     (normalize_path ''/a/db'') = None \<and>
   wechat_vfs_unregister_keys Map.empty ''/a/db'' = Map.empty"
proof -
  have n: "normalize_path ''/A/DB'' = normalize_path ''/a/db''"
    by (simp add: normalize_path_def normalize_char_def char_of_def)
  have a: "(Map.empty :: registry) (normalize_path ''/a/db'') = None" by simp
  have d: "normalize_path ''/a/other'' \<noteq> normalize_path ''/a/db''"
    by (simp add: normalize_path_def)
  have hx: "hex_to_bytes scan_two_digits ''03'' = [3]" "hex_to_bytes scan_two_digits ''04'' = [4]"
    by (simp_all add: hex_value_def)
  note r = register_unregister
    [OF n a d, of scan_two_digits Map.empty "''01''" "''02''" "''03''" "''04''"]
  have r1: "wechat_vfs_register_keys scan_two_digits
      (wechat_vfs_register_keys scan_two_digits Map.empty ''/a/db'' ''01'' ''02'') ''/A/DB'' ''03'' ''04''
      (normalize_path ''/a/db'') = Some \<lparr>encKey = [3], macKey = [4]\<rparr>"
    using r hx by metis
  have r2: "wechat_vfs_unregister_keys
      (wechat_vfs_register_keys scan_two_digits Map.empty ''/a/db'' ''01'' ''02'') ''/A/DB''
      (normalize_path ''/a/db'') = None"
    using r by blast
  have r3: "wechat_vfs_unregister_keys Map.empty ''/a/db'' = (Map.empty :: registry)"
    using r by blast
  show ?thesis
    using n a d r1 r2 r3 by blast
qed

subsection \<open>One page\<close>

lemmas layout_defs = PAGE_SIZE_def RESERVE_SIZE_def SALT_SIZE_def IV_SIZE_def

lemmas status_defs = SQLITE_OK_def SQLITE_ERROR_def SQLITE_IOERR_SHORT_READ_def

lemma length_store_at:
  "d + length src \<le> length dst \<Longrightarrow> length (store_at dst d src) = length dst"
  by (simp add: store_at_def)

lemma store_at_whole: "length src = length dst \<Longrightarrow> store_at dst 0 src = src"
  by (simp add: store_at_def)

lemma encrypted_len_values:
  "encrypted_len page_num = (if page_num = 0 then 4000 else 4016)"
  by (simp add: encrypted_len_def offset_def layout_defs)

text \<open>
  The page after the engine's call: the vector buffer, bytes 4016 to 4031 of the
  encrypted buffer, holds what the engine left there.
\<close>

lemma length_after_call:
  "length enc = 4096 \<Longrightarrow> length (store_at enc 4016 (take 16 v1)) = 4096"
  by (simp add: store_at_def)

lemma decrypt_page_keyed:
  assumes "length enc = nat PAGE_SIZE" and "length dec = nat PAGE_SIZE"
    and "bcrypt (take 32 (encKey k)) (take (nat IV_SIZE) (iv enc))
           (take (nat (encrypted_len page_num)) (drop (nat (offset page_num)) enc)) =
         (Some plain, v1)"
    and "length plain = nat (encrypted_len page_num)"
  shows "decrypt_page bcrypt (Some k) page_num enc dec =
           (store_at enc 4016 (take 16 v1),
            Inr (plain @ drop 4016 (store_at enc 4016 (take 16 v1)) @
                 (if page_num = 0 then replicate (nat SALT_SIZE) 0 else [])))"
  using assms
  by (simp add: decrypt_page_def aes_decrypt_cbc_def memcpy_def memset_def store_at_def
      encrypted_len_values iv_def layout_defs Let_def add.commute)

lemma decrypt_page_failed:
  assumes "bcrypt (take 32 (encKey k)) (take (nat IV_SIZE) (iv enc))
           (take (nat (encrypted_len page_num)) (drop (nat (offset page_num)) enc)) = (None, v1)"
  shows "decrypt_page bcrypt (Some k) page_num enc dec =
           (store_at enc 4016 (take 16 v1), Inl SQLITE_ERROR)"
  using assms
  by (simp add: decrypt_page_def aes_decrypt_cbc_def store_at_def iv_def layout_defs Let_def
      add.commute)

lemma decrypt_page_Inr:
  "decrypt_page bcrypt (Some k) page_num enc dec = (enc1, Inr page) \<Longrightarrow>
     \<exists>plain v1. bcrypt (take 32 (encKey k)) (take (nat IV_SIZE) (iv enc))
       (take (nat (encrypted_len page_num)) (drop (nat (offset page_num)) enc)) = (Some plain, v1)"
  by (auto simp add: decrypt_page_def aes_decrypt_cbc_def Let_def
      split: option.splits if_splits prod.splits)

lemma region_length:
  "length enc = nat PAGE_SIZE \<Longrightarrow>
   length (take (nat (encrypted_len page_num)) (drop (nat (offset page_num)) enc)) =
     nat (encrypted_len page_num)"
  by (simp add: encrypted_len_def offset_def layout_defs)

text \<open>
  Facts about the example page and the example engines.
\<close>

lemmas page_eval = decrypt_page_def aes_decrypt_cbc_def toy_cng_def example_keys_def
  example_page_def iv_def offset_def encrypted_len_def layout_defs store_at_def memcpy_def
  memset_def only_when_def

lemma length_example_page: "length example_page = nat PAGE_SIZE"
  by (simp add: example_page_def layout_defs)

lemma length_scratch: "length (replicate 4096 (9 :: byte)) = nat PAGE_SIZE"
  by (simp add: layout_defs)

lemma length_preserving_toy: "length_preserving toy_cng"
  by (auto simp add: length_preserving_def toy_cng_def split: if_splits)

lemma toy_decrypts_page1:
  "decrypt_page toy_cng (Some example_keys) 1 example_page (replicate 4096 9) =
     (example_page, Inr (replicate 4016 1 @ replicate 16 1 @ replicate 64 2))"
  by (simp add: page_eval)

text \<open>
  C1, as the code has it. For every page that a read with keys decrypts, the
  initialization vector handed to the engine is the first 16 bytes of the reserve region,
  that is bytes 4016 to 4031 of the page in the scratch buffer, not its last 16 bytes: the
  page comes out the same when the engine refuses every other vector.
\<close>

theorem iv_is_start_of_reserve:
  assumes "length enc = nat PAGE_SIZE"
  shows "take (nat IV_SIZE) (iv enc) = take 16 (drop (length enc - nat RESERVE_SIZE) enc) \<and>
         take (nat IV_SIZE) (iv enc) = take 16 (drop 4016 enc) \<and>
         decrypt_page (only_when (\<lambda>key v input. v = take 16 (drop 4016 enc)) bcrypt)
           (Some k) page_num enc dec = decrypt_page bcrypt (Some k) page_num enc dec"
  using assms
  by (simp add: decrypt_page_def aes_decrypt_cbc_def only_when_def iv_def layout_defs)

theorem iv_is_start_of_reserve_witness:
  "length example_page = nat PAGE_SIZE \<and>
   take (nat IV_SIZE) (iv example_page) = replicate 16 1 \<and>
   decrypt_page (only_when (\<lambda>key v input. v = replicate 16 1) toy_cng)
     (Some example_keys) 1 example_page (replicate 4096 9) =
   (example_page, Inr (replicate 4016 1 @ replicate 16 1 @ replicate 64 2))"
proof -
  have e: "take 16 (drop 4016 example_page) = replicate 16 1"
    by (simp add: example_page_def)
  note r = iv_is_start_of_reserve
    [OF length_example_page, of toy_cng example_keys 1 "replicate 4096 9"]
  show ?thesis
    using r length_example_page unfolding e toy_decrypts_page1 by blast
qed

text \<open>
  The claim with the last 16 bytes fails on the example page: the vector that is passed
  differs from them, and an engine that accepts only the last 16 bytes refuses the page.
\<close>

theorem iv_is_last_16_bytes_counterexample:
  "take (nat IV_SIZE) (iv example_page) \<noteq> drop (length example_page - 16) example_page \<and>
   decrypt_page
     (only_when (\<lambda>key v input. v = drop (length example_page - 16) example_page) toy_cng)
     (Some example_keys) 1 example_page (replicate 4096 9) = (example_page, Inl SQLITE_ERROR) \<and>
   decrypt_page toy_cng (Some example_keys) 1 example_page (replicate 4096 9) =
     (example_page, Inr (replicate 4016 1 @ replicate 16 1 @ replicate 64 2))"
  by (simp add: page_eval)

text \<open>
  C3. For every page that a read with keys decrypts, the ciphertext region has
  \<open>PAGE_SIZE - RESERVE_SIZE - SALT_SIZE = 4000\<close> bytes on page 0 and
  \<open>PAGE_SIZE - RESERVE_SIZE = 4016\<close> bytes on every other page (the engine is called
  with an input of that length only), and the page put together in the decrypted buffer
  has exactly \<open>PAGE_SIZE = 4096\<close> bytes.
\<close>

theorem ciphertext_length_and_page_size:
  assumes "length enc = nat PAGE_SIZE" and "length dec = nat PAGE_SIZE"
    and "length_preserving bcrypt"
    and "decrypt_page bcrypt (Some k) page_num enc dec = (enc1, Inr page)"
  shows "encrypted_len page_num =
           (if page_num = 0 then PAGE_SIZE - RESERVE_SIZE - SALT_SIZE else PAGE_SIZE - RESERVE_SIZE) \<and>
         encrypted_len page_num = (if page_num = 0 then 4000 else 4016) \<and>
         decrypt_page (only_when (\<lambda>key v input. int (length input) = encrypted_len page_num) bcrypt)
           (Some k) page_num enc dec = (enc1, Inr page) \<and>
         length page = nat PAGE_SIZE \<and> length page = 4096"
proof -
  let ?input = "take (nat (encrypted_len page_num)) (drop (nat (offset page_num)) enc)"
  obtain plain v1
    where p: "bcrypt (take 32 (encKey k)) (take (nat IV_SIZE) (iv enc)) ?input = (Some plain, v1)"
    using decrypt_page_Inr [OF assms(4)] by blast
  have "length plain = length ?input"
    using p assms(3) unfolding length_preserving_def by blast
  then have l: "length plain = nat (encrypted_len page_num)"
    using region_length [OF assms(1), of page_num] by simp
  have e4: "length enc = 4096" using assms(1) by (simp add: layout_defs)
  have page: "page = plain @ drop 4016 (store_at enc 4016 (take 16 v1)) @
                (if page_num = 0 then replicate (nat SALT_SIZE) 0 else [])"
    and enc1: "enc1 = store_at enc 4016 (take 16 v1)"
    using decrypt_page_keyed [where bcrypt = bcrypt, OF assms(1,2) p l] assms(4) by simp_all
  have len: "length page = nat PAGE_SIZE"
    using l length_after_call [OF e4, of v1]
    by (simp add: page encrypted_len_values layout_defs)
  have g: "only_when (\<lambda>key v input. int (length input) = encrypted_len page_num) bcrypt
             (take 32 (encKey k)) (take (nat IV_SIZE) (iv enc)) ?input = (Some plain, v1)"
    using p region_length [OF assms(1), of page_num]
    by (simp add: only_when_def encrypted_len_values)
  have "decrypt_page (only_when (\<lambda>key v input. int (length input) = encrypted_len page_num) bcrypt)
           (Some k) page_num enc dec = (enc1, Inr page)"
    using decrypt_page_keyed
      [where bcrypt = "only_when (\<lambda>key v input. int (length input) = encrypted_len page_num) bcrypt",
        OF assms(1,2) g l] page enc1 by simp
  then show ?thesis
    using len by (simp add: encrypted_len_values layout_defs)
qed

theorem ciphertext_length_and_page_size_witness:
  "length example_page = nat PAGE_SIZE \<and> length (replicate 4096 (9 :: byte)) = nat PAGE_SIZE \<and>
   length_preserving toy_cng \<and>
   decrypt_page toy_cng (Some example_keys) 1 example_page (replicate 4096 9) =
     (example_page, Inr (replicate 4016 1 @ replicate 16 1 @ replicate 64 2)) \<and>
   encrypted_len 1 = 4016 \<and>
   length (replicate 4016 (1 :: byte) @ replicate 16 1 @ replicate 64 2) = 4096"
  using ciphertext_length_and_page_size
      [OF length_example_page length_scratch length_preserving_toy toy_decrypts_page1]
    length_example_page length_scratch length_preserving_toy toy_decrypts_page1
  by simp

text \<open>
  The layout of the decrypted page, for every engine: the plaintext, then the 80 bytes
  of the reserve region as they stand in the encrypted buffer after the engine's call
  (the 16 bytes of the vector as the engine left them, the 64 bytes after them as they
  were read), then, on page 0 only, \<open>SALT_SIZE = 16\<close> zero bytes.
\<close>

lemma reassembly_after_call:
  assumes "length enc = nat PAGE_SIZE" and "length dec = nat PAGE_SIZE"
    and "bcrypt (take 32 (encKey k)) (take (nat IV_SIZE) (iv enc))
           (take (nat (encrypted_len page_num)) (drop (nat (offset page_num)) enc)) =
         (Some plain, v1)"
    and "length plain = nat (encrypted_len page_num)" and "length v1 = 16"
  shows "snd (decrypt_page bcrypt (Some k) page_num enc dec) =
           Inr (plain @ (v1 @ drop (length enc - 64) enc) @
                (if page_num = 0 then replicate (nat SALT_SIZE) 0 else []))"
  using decrypt_page_keyed [where bcrypt = bcrypt, OF assms(1-4)] assms(1,5)
  by (simp add: store_at_def layout_defs)

text \<open>
  C4, with an engine that writes its vector buffer. The source passes the vector as a
  pointer into the encrypted buffer, cast from \<open>const unsigned char *\<close> to \<open>PBYTE\<close>,
  and copies the reserve region after the call. With the engine that leaves the last 16
  bytes of its input in the vector buffer, page 1 of the example comes out with a reserve
  region whose first 16 bytes are no longer the ones that were read: the plaintext comes
  first and nothing is added, but the reserve region is not the untouched one.
\<close>

theorem reserve_is_copied_after_write_back:
  "drop (length example_page - nat RESERVE_SIZE) example_page = replicate 16 1 @ replicate 64 2 \<and>
   decrypt_page chaining_cng (Some example_keys) 1 example_page (replicate 4096 9) =
     (replicate 4016 0 @ replicate 16 0 @ replicate 64 2,
      Inr (replicate 4016 1 @ replicate 16 0 @ replicate 64 2)) \<and>
   replicate 16 (0 :: byte) @ replicate 64 2 \<noteq> replicate 16 1 @ replicate 64 2"
  by (simp add: page_eval chaining_cng_def)

subsection \<open>Reads that are passed through\<close>

text \<open>
  What sends a read to the real file as it is (same amount and offset, the caller's
  buffer, the status returned unchanged, no page and no decryption) is the absence of a
  decrypt callback, with or without keys.
\<close>

lemma read_without_callback_is_forwarded:
  assumes "\<not> decrypt_cb p"
    and "xRead (real_file p) iAmt iOfst = (rc, stored)"
  shows "wechat_read bcrypt fresh p t zBuf iAmt iOfst = Some (rc, store_at zBuf 0 stored, t)"
  using assms by (simp add: wechat_read_def)

text \<open>
  \<open>wechat_open\<close> leaves the callback member as it finds it and takes the keys from the
  registry: from the same memory, a registered path gives a handle with keys and an
  unregistered one a handle without, both with the callback or both without it.
\<close>

lemma wechat_open_callback_and_keys:
  assumes "wechat_open default_xOpen g p0 (Some name) flags = (SQLITE_OK, Some h, out_flags)"
  shows "decrypt_cb h = decrypt_cb p0 \<and> keys h = g (normalize_path name)"
  using assms
  by (auto simp add: wechat_open_def Let_def split: prod.splits if_splits)

lemmas read_eval = wechat_read_def example_handle_def no_buffers_def fresh_memory_def
  ensure_buffers_allocated_def signed_divide_int_def signed_modulo_int_def int32_def int64_def


subsection \<open>A page read that fails\<close>

text \<open>
  C6. When the loop reaches a page and the real file's read of that page returns another
  status than \<open>SQLITE_OK\<close>, the read returns that status at once: no later page is
  processed, and the caller's buffer and the count of bytes written are what the earlier
  pages made them.
\<close>

theorem failed_page_read_aborts:
  assumes "page_num \<le> end_page"
    and "xRead (real_file p) PAGE_SIZE (page_num * PAGE_SIZE) = (rc, stored)"
    and "rc \<noteq> SQLITE_OK"
  shows "read_pages bcrypt p iAmt start_page end_page start_offset page_num s =
           Some (rc, s\<lparr>encrypted_buffer := store_at (encrypted_buffer s) 0 stored\<rparr>)"
  using assms by (subst read_pages.simps) (simp add: read_page_def)

text \<open>
  A read of 20 bytes at offset 4086 of a file of one page: the 10 bytes of page 0 are
  in the caller's buffer, page 1 cannot be read, and the short-read status comes back.
\<close>

theorem failed_page_read_aborts_witness:
  "map_option (\<lambda>r. (fst r, fst (snd r)))
     (wechat_read toy_cng fresh_memory
        (example_handle (disk_file example_page) (Some example_keys) True)
        no_buffers (replicate 20 9) 20 4086) =
     Some (SQLITE_IOERR_SHORT_READ, replicate 10 0 @ replicate 10 9)"
proof -
  let ?p = "example_handle (disk_file example_page) (Some example_keys) True"
  have f: "xRead (real_file ?p) PAGE_SIZE (1 * PAGE_SIZE) = (SQLITE_IOERR_SHORT_READ, replicate 4096 0)"
    by (simp add: example_handle_def disk_file_def example_page_def layout_defs)
  have n: "SQLITE_IOERR_SHORT_READ \<noteq> SQLITE_OK"
    by (simp add: status_defs)
  note a = failed_page_read_aborts [where p = ?p and page_num = 1 and end_page = 1
      and bcrypt = toy_cng and iAmt = 20 and start_page = 0 and start_offset = 4086, OF _ f n]
  have s: "read_page toy_cng ?p 20 0 4086 0
      \<lparr>encrypted_buffer = replicate 4096 170, decrypted_buffer = replicate 4096 187,
         output_buf = replicate 20 9, bytes_written = 0\<rparr> =
      Inr \<lparr>encrypted_buffer = example_page,
           decrypted_buffer = replicate 4000 1 @ replicate 16 1 @ replicate 64 2 @ replicate 16 0,
           output_buf = replicate 10 0 @ replicate 10 9, bytes_written = 10\<rparr>"
    apply (simp add: read_page_def copy_offset_def bytes_to_copy_def example_handle_def disk_file_def
        status_defs layout_defs)
    apply (simp add: example_page_def store_at_def)
    apply (simp add: decrypt_page_def aes_decrypt_cbc_def toy_cng_def example_keys_def iv_def
        offset_def encrypted_len_def layout_defs)
    apply (simp add: store_at_def memcpy_def memset_def layout_defs Let_def copy_offset_def
        bytes_to_copy_def)
    done
  show ?thesis
    apply (simp add: read_eval layout_defs)
    apply (subst read_pages.simps)
    apply (simp add: s [unfolded example_handle_def] a [unfolded example_handle_def] int32_def)
    done
qed

subsection \<open>Whole reads\<close>

lemma decrypted_range_append:
  assumes "0 \<le> m" "0 \<le> n"
  shows "decrypted_range bcrypt k f a (m + n) =
         decrypted_range bcrypt k f a m @ decrypted_range bcrypt k f (a + m) n"
proof -
  let ?g = "\<lambda>i. decrypted_byte bcrypt k f (a + int i)"
  have s: "nat (m + n) = nat m + nat n"
    using assms by (simp add: nat_add_distrib)
  have u: "[nat m..<nat m + nat n] = map (\<lambda>i. i + nat m) [0..<nat n]"
    by (simp add: map_add_upt add.commute)
  have "map ?g [0..<nat m + nat n] = map ?g [0..<nat m] @ map ?g [nat m..<nat m + nat n]"
    by (simp only: upt_add_eq_append [OF le0] map_append)
  also have "map ?g [nat m..<nat m + nat n] =
      map (\<lambda>i. decrypted_byte bcrypt k f (a + m + int i)) [0..<nat n]"
    unfolding u using assms(1) by (simp add: o_def algebra_simps)
  finally show ?thesis
    by (simp only: decrypted_range_def s)
qed

lemma length_decrypted_range: "length (decrypted_range bcrypt k f a n) = nat n"
  by (simp add: decrypted_range_def)

lemma raw_page_length:
  "stores_whole_pages f \<Longrightarrow> raw_page f j = Some raw \<Longrightarrow> length raw = 4096"
  by (auto simp add: stores_whole_pages_def raw_page_def layout_defs split: prod.splits if_splits)

lemma decrypted_page_length:
  assumes "stores_whole_pages f" "length_preserving bcrypt"
    and "decrypted_page bcrypt k f j = Some D"
  shows "length D = 4096"
proof -
  obtain raw plain v1 where r: "raw_page f j = Some raw"
    and b: "bcrypt (take 32 (encKey k)) (take 16 (drop 4016 raw))
                  (take (if j = 0 then 4000 else 4016) (drop (if j = 0 then 16 else 0) raw)) =
            (Some plain, v1)"
    and D: "D = plain @ drop 4016 (store_at raw 4016 (take 16 v1)) @
                (if j = 0 then replicate 16 0 else [])"
    using assms(3) by (auto simp add: decrypted_page_def split: option.splits prod.splits)
  have lr: "length raw = 4096" using raw_page_length [OF assms(1) r] .
  have "length plain = length (take (if j = 0 then 4000 else 4016) (drop (if j = 0 then 16 else 0) raw))"
    using assms(2) b unfolding length_preserving_def by blast
  then show ?thesis using lr length_after_call [OF lr, of v1] by (simp add: D)
qed

lemma slice_of_page:
  assumes "decrypted_page bcrypt k f j = Some D" "length D = 4096"
    and "0 \<le> co" "0 \<le> c" "co + c \<le> 4096"
  shows "take (nat c) (drop (nat co) D) = decrypted_range bcrypt k f (j * 4096 + co) c"
proof (rule nth_equalityI)
  show "length (take (nat c) (drop (nat co) D)) = length (decrypted_range bcrypt k f (j * 4096 + co) c)"
    using assms by (simp add: length_decrypted_range)
next
  fix i assume "i < length (take (nat c) (drop (nat co) D))"
  then have i: "i < nat c" by simp
  have d: "(j * 4096 + co + int i) div 4096 = j"
    using assms i by (simp add: div_pos_pos_trivial)
  have m: "(j * 4096 + co + int i) mod 4096 = co + int i"
    using assms i by (simp add: mod_pos_pos_trivial add.assoc)
  show "take (nat c) (drop (nat co) D) ! i = decrypted_range bcrypt k f (j * 4096 + co) c ! i"
    using i assms by (simp add: decrypted_range_def decrypted_byte_def d m nat_add_distrib)
qed

lemma read_page_good:
  assumes k: "keys p = Some k"
    and D: "decrypted_page bcrypt k (real_file p) j = Some D"
    and f: "stores_whole_pages (real_file p)" and e: "length_preserving bcrypt"
    and le: "length (encrypted_buffer s) = 4096" and ld: "length (decrypted_buffer s) = 4096"
  shows "\<exists>raw. length raw = 4096 \<and>
     read_page bcrypt p iAmt start_page start_offset j s =
       Inr (s\<lparr>encrypted_buffer := raw, decrypted_buffer := D,
              output_buf := memcpy (output_buf s) (bytes_written s) D
                 (copy_offset start_page start_offset j)
                 (bytes_to_copy iAmt (bytes_written s) (copy_offset start_page start_offset j)),
              bytes_written := bytes_written s +
                 bytes_to_copy iAmt (bytes_written s) (copy_offset start_page start_offset j)\<rparr>)"
proof -
  obtain raw plain v1 where r: "raw_page (real_file p) j = Some raw"
    and b: "bcrypt (take 32 (encKey k)) (take 16 (drop 4016 raw))
                  (take (if j = 0 then 4000 else 4016) (drop (if j = 0 then 16 else 0) raw)) =
            (Some plain, v1)"
    and Dq: "D = plain @ drop 4016 (store_at raw 4016 (take 16 v1)) @
                 (if j = 0 then replicate 16 0 else [])"
    using D by (auto simp add: decrypted_page_def split: option.splits prod.splits)
  have lr: "length raw = 4096" using raw_page_length [OF f r] .
  have x: "xRead (real_file p) PAGE_SIZE (j * PAGE_SIZE) = (SQLITE_OK, raw)"
    using r by (auto simp add: raw_page_def split: prod.splits if_splits)
  have "length plain =
      length (take (if j = 0 then 4000 else 4016) (drop (if j = 0 then 16 else 0) raw))"
    using e b unfolding length_preserving_def by blast
  then have lp: "length plain = nat (encrypted_len j)"
    using lr by (simp add: encrypted_len_values)
  have st: "store_at (encrypted_buffer s) 0 raw = raw"
    using le lr by (simp add: store_at_whole)
  have b': "bcrypt (take 32 (encKey k)) (take (nat IV_SIZE) (iv raw))
           (take (nat (encrypted_len j)) (drop (nat (offset j)) raw)) = (Some plain, v1)"
    using b by (cases "j = 0") (simp_all add: iv_def encrypted_len_values offset_def layout_defs)
  let ?raw1 = "store_at raw 4016 (take 16 v1)"
  have lr1: "length ?raw1 = 4096" using length_after_call [OF lr] .
  have dp: "decrypt_page bcrypt (Some k) j raw (decrypted_buffer s) = (?raw1, Inr D)"
    using decrypt_page_keyed [where bcrypt = bcrypt and enc = raw and dec = "decrypted_buffer s", OF _ _ b' lp]
      lr ld
    by (simp add: Dq layout_defs)
  have "read_page bcrypt p iAmt start_page start_offset j s =
       Inr (s\<lparr>encrypted_buffer := ?raw1, decrypted_buffer := D,
              output_buf := memcpy (output_buf s) (bytes_written s) D
                 (copy_offset start_page start_offset j)
                 (bytes_to_copy iAmt (bytes_written s) (copy_offset start_page start_offset j)),
              bytes_written := bytes_written s +
                 bytes_to_copy iAmt (bytes_written s) (copy_offset start_page start_offset j)\<rparr>)"
    by (simp add: read_page_def x st k dp Let_def)
  then show ?thesis using lr1 by blast
qed

lemma read_page_bad:
  assumes k: "keys p = Some k"
    and D: "decrypted_page bcrypt k (real_file p) j = None"
    and f: "stores_whole_pages (real_file p)"
    and le: "length (encrypted_buffer s) = 4096"
  shows "\<exists>rc s1. rc \<noteq> SQLITE_OK \<and>
     read_page bcrypt p iAmt start_page start_offset j s = Inl (rc, s1)"
proof (cases "raw_page (real_file p) j")
  case None
  then obtain rc stored where x: "xRead (real_file p) PAGE_SIZE (j * PAGE_SIZE) = (rc, stored)"
    and rc: "rc \<noteq> SQLITE_OK"
    by (auto simp add: raw_page_def split: prod.splits if_splits)
  show ?thesis
    using rc by (simp add: read_page_def x)
next
  case (Some raw)
  have lr: "length raw = 4096" using raw_page_length [OF f Some] .
  have x: "xRead (real_file p) PAGE_SIZE (j * PAGE_SIZE) = (SQLITE_OK, raw)"
    using Some by (auto simp add: raw_page_def split: prod.splits if_splits)
  have st: "store_at (encrypted_buffer s) 0 raw = raw"
    using le lr by (simp add: store_at_whole)
  obtain v1 where b: "bcrypt (take 32 (encKey k)) (take 16 (drop 4016 raw))
                  (take (if j = 0 then 4000 else 4016) (drop (if j = 0 then 16 else 0) raw)) =
                 (None, v1)"
    using D Some by (auto simp add: decrypted_page_def split: option.splits prod.splits)
  have b': "bcrypt (take 32 (encKey k)) (take (nat IV_SIZE) (iv raw))
           (take (nat (encrypted_len j)) (drop (nat (offset j)) raw)) = (None, v1)"
    using b by (cases "j = 0") (simp_all add: iv_def encrypted_len_values offset_def layout_defs)
  have dp: "decrypt_page bcrypt (Some k) j raw (decrypted_buffer s) =
      (store_at raw 4016 (take 16 v1), Inl SQLITE_ERROR)"
    using decrypt_page_failed [where bcrypt = bcrypt, OF b'] .
  show ?thesis
    by (simp add: read_page_def x st k dp status_defs)
qed

lemma store_at_take:
  "a + length xs \<le> length out \<Longrightarrow> take (a + length xs) (store_at out a xs) = take a out @ xs"
  by (simp add: store_at_def)

lemma store_at_drop:
  "a + length xs \<le> n \<Longrightarrow> n \<le> length out \<Longrightarrow> drop n (store_at out a xs) = drop n out"
  by (simp add: store_at_def)

lemma page_arith:
  fixes ofs n j :: int
  assumes "0 \<le> ofs" "0 < n"
    and "ofs div 4096 \<le> j" "j \<le> (ofs + n - 1) div 4096"
  shows "copy_offset (ofs div 4096) (ofs mod 4096) j = max ofs (j * 4096) - j * 4096"
    and "written_before ofs n j = max ofs (j * 4096) - ofs"
    and "bytes_to_copy n (written_before ofs n j) (copy_offset (ofs div 4096) (ofs mod 4096) j) =
           min (ofs + n) ((j + 1) * 4096) - max ofs (j * 4096)"
    and "written_before ofs n (j + 1) = min (ofs + n) ((j + 1) * 4096) - ofs"
    and "max ofs (j * 4096) < min (ofs + n) ((j + 1) * 4096)"
    and "0 \<le> max ofs (j * 4096) - j * 4096"
    and "min (ofs + n) ((j + 1) * 4096) - j * 4096 \<le> 4096"
    and "0 \<le> j"
proof -
  define a where "a = ofs div 4096"
  define b where "b = (ofs + n - 1) div 4096"
  have a1: "a * 4096 \<le> ofs" and a2: "ofs < a * 4096 + 4096" and am: "ofs mod 4096 = ofs - a * 4096"
    using div_mult_mod_eq [of ofs 4096] pos_mod_sign [of 4096 ofs] pos_mod_bound [of 4096 ofs]
    unfolding a_def by linarith+
  have b1: "b * 4096 \<le> ofs + n - 1" and b2: "ofs + n - 1 < b * 4096 + 4096"
    using div_mult_mod_eq [of "ofs + n - 1" 4096] pos_mod_sign [of 4096 "ofs + n - 1"]
      pos_mod_bound [of 4096 "ofs + n - 1"]
    unfolding b_def by linarith+
  have j1: "a \<le> j" and j2: "j \<le> b" using assms by (simp_all add: a_def b_def)
  have a0: "0 \<le> a" using assms(1) by (simp add: a_def pos_imp_zdiv_nonneg_iff)
  show "0 \<le> j" using a0 j1 by simp
  show c: "copy_offset (ofs div 4096) (ofs mod 4096) j = max ofs (j * 4096) - j * 4096"
    using a1 a2 j1 by (auto simp add: copy_offset_def am a_def [symmetric])
  show w: "written_before ofs n j = max ofs (j * 4096) - ofs"
    using b1 j2 assms by (auto simp add: written_before_def)
  show "bytes_to_copy n (written_before ofs n j) (copy_offset (ofs div 4096) (ofs mod 4096) j) =
           min (ofs + n) ((j + 1) * 4096) - max ofs (j * 4096)"
    unfolding c w by (auto simp add: bytes_to_copy_def Let_def layout_defs)
  show "written_before ofs n (j + 1) = min (ofs + n) ((j + 1) * 4096) - ofs"
    using a2 j1 assms by (auto simp add: written_before_def)
  show "max ofs (j * 4096) < min (ofs + n) ((j + 1) * 4096)"
    using a2 j1 b1 j2 assms by auto
  show "0 \<le> max ofs (j * 4096) - j * 4096" by simp
  show "min (ofs + n) ((j + 1) * 4096) - j * 4096 \<le> 4096" by simp
qed

lemma written_before_end:
  fixes ofs n :: int
  assumes "0 \<le> ofs" "0 < n"
  shows "written_before ofs n ((ofs + n - 1) div 4096 + 1) = n"
proof -
  define b where "b = (ofs + n - 1) div 4096"
  have b2: "ofs + n - 1 < b * 4096 + 4096"
    using div_mult_mod_eq [of "ofs + n - 1" 4096] pos_mod_bound [of 4096 "ofs + n - 1"]
    unfolding b_def by linarith
  show ?thesis
    using b2 assms by (auto simp add: written_before_def b_def [symmetric])
qed

lemma written_before_start:
  fixes ofs n :: int
  assumes "0 \<le> ofs" "0 < n"
  shows "written_before ofs n (ofs div 4096) = 0"
proof -
  have "(ofs div 4096) * 4096 \<le> ofs"
    using div_mult_mod_eq [of ofs 4096] pos_mod_sign [of 4096 ofs] by linarith
  then show ?thesis using assms by (simp add: written_before_def max_def)
qed

lemma int32_id: "- 2147483648 \<le> x \<Longrightarrow> x < 2147483648 \<Longrightarrow> int32 x = x"
  by (simp add: int32_def mod_pos_pos_trivial)

lemma int64_id: "- 9223372036854775808 \<le> x \<Longrightarrow> x < 9223372036854775808 \<Longrightarrow> int64 x = x"
  by (simp add: int64_def mod_pos_pos_trivial)

lemma sdiv_nonneg: "0 \<le> (a :: int) \<Longrightarrow> a sdiv 4096 = a div 4096"
  by (cases "a = 0") (simp_all add: signed_divide_int_def)

lemma smod_nonneg: "0 \<le> (a :: int) \<Longrightarrow> a smod 4096 = a mod 4096"
  by (cases "a = 0") (simp_all add: signed_modulo_int_def)

lemma page_numbers:
  fixes iOfst iAmt :: int
  assumes "0 \<le> iOfst" "0 < iAmt" "iOfst + iAmt \<le> 8796093018112"
  shows "int32 (iOfst sdiv PAGE_SIZE) = iOfst div 4096"
    and "int32 (int64 (int64 (iOfst + iAmt) - 1) sdiv PAGE_SIZE) = (iOfst + iAmt - 1) div 4096"
    and "int32 (iOfst smod PAGE_SIZE) = iOfst mod 4096"
    and "(iOfst + iAmt - 1) div 4096 < 2147483647"
    and "iOfst div 4096 \<le> (iOfst + iAmt - 1) div 4096"
proof -
  have d: "(iOfst + iAmt - 1) div 4096 < 2147483647"
    using assms div_mult_mod_eq [of "iOfst + iAmt - 1" 4096] pos_mod_sign [of 4096 "iOfst + iAmt - 1"]
    by linarith
  have d0: "0 \<le> iOfst div 4096" using assms by (simp add: pos_imp_zdiv_nonneg_iff)
  have mono: "iOfst div 4096 \<le> (iOfst + iAmt - 1) div 4096"
    using assms by (intro zdiv_mono1) simp_all
  have i1: "int64 (iOfst + iAmt) = iOfst + iAmt" using assms by (intro int64_id) simp_all
  have i2: "int64 (iOfst + iAmt - 1) = iOfst + iAmt - 1" using assms by (intro int64_id) simp_all
  show "int32 (iOfst sdiv PAGE_SIZE) = iOfst div 4096"
    using assms d d0 mono by (simp add: PAGE_SIZE_def sdiv_nonneg int32_id)
  show "int32 (int64 (int64 (iOfst + iAmt) - 1) sdiv PAGE_SIZE) = (iOfst + iAmt - 1) div 4096"
    using assms d d0 mono by (simp add: PAGE_SIZE_def i1 i2 sdiv_nonneg int32_id)
  show "int32 (iOfst smod PAGE_SIZE) = iOfst mod 4096"
    using assms pos_mod_bound [of 4096 iOfst] pos_mod_sign [of 4096 iOfst]
    by (simp add: PAGE_SIZE_def smod_nonneg int32_id)
  show "(iOfst + iAmt - 1) div 4096 < 2147483647" using d .
  show "iOfst div 4096 \<le> (iOfst + iAmt - 1) div 4096" using mono .
qed

text \<open>
  The loop over the pages \<open>j\<close> to the end page, started with the bytes written that
  belong to \<open>j\<close>: when every page from \<open>j\<close> on can be read and decrypted it
  returns \<open>SQLITE_OK\<close> with the rest of the range in the caller's buffer, and when it
  returns \<open>SQLITE_OK\<close> every page from \<open>j\<close> on could be read and decrypted.
\<close>

lemma read_pages_good:
  fixes ofs n :: int
  assumes k: "keys p = Some k"
    and f: "stores_whole_pages (real_file p)" and e: "length_preserving bcrypt"
    and o: "0 \<le> ofs" and n: "0 < n" and lim: "(ofs + n - 1) div 4096 < 2147483647"
  shows "m = nat ((ofs + n - 1) div 4096 + 1 - j) \<Longrightarrow>
     ofs div 4096 \<le> j \<Longrightarrow> j \<le> (ofs + n - 1) div 4096 + 1 \<Longrightarrow>
     bytes_written s = written_before ofs n j \<Longrightarrow>
     length (encrypted_buffer s) = 4096 \<Longrightarrow> length (decrypted_buffer s) = 4096 \<Longrightarrow>
     nat n \<le> length (output_buf s) \<Longrightarrow>
     (\<forall>i. j \<le> i \<and> i \<le> (ofs + n - 1) div 4096 \<longrightarrow>
          decrypted_page bcrypt k (real_file p) i \<noteq> None) \<Longrightarrow>
     \<exists>s'. read_pages bcrypt p n (ofs div 4096) ((ofs + n - 1) div 4096) (ofs mod 4096) j s =
            Some (SQLITE_OK, s') \<and>
          output_buf s' =
            take (nat (bytes_written s)) (output_buf s) @
            decrypted_range bcrypt k (real_file p) (ofs + bytes_written s) (n - bytes_written s) @
            drop (nat n) (output_buf s) \<and>
          length (encrypted_buffer s') = 4096 \<and> length (decrypted_buffer s') = 4096"
proof (induction m arbitrary: j s)
  case 0
  then have j: "j = (ofs + n - 1) div 4096 + 1" by simp
  have w: "bytes_written s = n"
    using "0.prems"(4) written_before_end [OF o n] by (simp add: j)
  have "read_pages bcrypt p n (ofs div 4096) ((ofs + n - 1) div 4096) (ofs mod 4096) j s =
          Some (SQLITE_OK, s)"
    by (subst read_pages.simps) (simp add: j)
  then show ?case
    using "0.prems" by (simp add: w decrypted_range_def)
next
  case (Suc m)
  let ?f = "real_file p"
  let ?e = "(ofs + n - 1) div 4096"
  have j1: "ofs div 4096 \<le> j" and j2: "j \<le> ?e"
    using Suc.prems by simp_all
  note ar = page_arith [OF o n j1 j2]
  obtain D where D: "decrypted_page bcrypt k ?f j = Some D"
    using Suc.prems(8) j2 by blast
  have lD: "length D = 4096" using decrypted_page_length [OF f e D] .
  let ?co = "copy_offset (ofs div 4096) (ofs mod 4096) j"
  let ?bw = "bytes_written s"
  let ?c = "bytes_to_copy n ?bw ?co"
  obtain raw where lr: "length raw = 4096"
    and rp: "read_page bcrypt p n (ofs div 4096) (ofs mod 4096) j s =
       Inr (s\<lparr>encrypted_buffer := raw, decrypted_buffer := D,
              output_buf := memcpy (output_buf s) ?bw D ?co ?c,
              bytes_written := ?bw + ?c\<rparr>)"
    using read_page_good [OF k D f e Suc.prems(5,6)] by blast
  let ?s1 = "s\<lparr>encrypted_buffer := raw, decrypted_buffer := D,
              output_buf := memcpy (output_buf s) ?bw D ?co ?c,
              bytes_written := ?bw + ?c\<rparr>"
  have bw: "?bw = max ofs (j * 4096) - ofs"
    using Suc.prems(4) ar(2) by simp
  have co: "?co = max ofs (j * 4096) - j * 4096" using ar(1) .
  have c: "?c = min (ofs + n) ((j + 1) * 4096) - max ofs (j * 4096)"
    using ar(3) Suc.prems(4) by simp
  have cpos: "0 < ?c" using ar(5) c by simp
  have bw0: "0 \<le> ?bw" using bw by simp
  have bwc: "?bw + ?c \<le> n" using bw c by simp
  have sl: "take (nat ?c) (drop (nat ?co) D) = decrypted_range bcrypt k ?f (ofs + ?bw) ?c"
  proof -
    have "take (nat ?c) (drop (nat ?co) D) = decrypted_range bcrypt k ?f (j * 4096 + ?co) ?c"
      using ar(6,7) cpos co c by (intro slice_of_page [OF D lD]) simp_all
    moreover have "j * 4096 + ?co = ofs + ?bw" using co bw by simp
    ultimately show ?thesis by simp
  qed
  let ?out = "output_buf s"
  let ?piece = "decrypted_range bcrypt k ?f (ofs + ?bw) ?c"
  have out1: "output_buf ?s1 = store_at ?out (nat ?bw) ?piece"
    by (simp add: memcpy_def sl)
  have lp: "length ?piece = nat ?c" by (simp add: length_decrypted_range)
  have fits: "nat ?bw + length ?piece \<le> nat n"
    using bw0 cpos bwc by (simp add: lp nat_add_distrib [symmetric])
  have lout: "nat n \<le> length ?out" using Suc.prems(7) .
  have len1: "length (output_buf ?s1) = length ?out"
    using fits lout by (simp add: out1 length_store_at)
  have tk: "take (nat (?bw + ?c)) (output_buf ?s1) = take (nat ?bw) ?out @ ?piece"
  proof -
    have "nat (?bw + ?c) = nat ?bw + length ?piece"
      using bw0 cpos by (simp add: lp nat_add_distrib)
    then show ?thesis
      using fits lout by (simp add: out1 store_at_take)
  qed
  have dr: "drop (nat n) (output_buf ?s1) = drop (nat n) ?out"
    using fits lout by (simp add: out1 store_at_drop)
  have nx: "int32 (j + 1) = j + 1"
    using ar(8) j2 lim by (intro int32_id) simp_all
  have ih: "\<exists>s'. read_pages bcrypt p n (ofs div 4096) ?e (ofs mod 4096) (j + 1) ?s1 =
            Some (SQLITE_OK, s') \<and>
          output_buf s' =
            take (nat (bytes_written ?s1)) (output_buf ?s1) @
            decrypted_range bcrypt k ?f (ofs + bytes_written ?s1) (n - bytes_written ?s1) @
            drop (nat n) (output_buf ?s1) \<and>
          length (encrypted_buffer s') = 4096 \<and> length (decrypted_buffer s') = 4096"
  proof (rule Suc.IH)
    show "m = nat (?e + 1 - (j + 1))" using Suc.prems(1) by simp
    show "ofs div 4096 \<le> j + 1" using j1 by simp
    show "j + 1 \<le> ?e + 1" using j2 by simp
    show "bytes_written ?s1 = written_before ofs n (j + 1)"
      using ar(4) bw c by simp
    show "length (encrypted_buffer ?s1) = 4096" using lr by simp
    show "length (decrypted_buffer ?s1) = 4096" using lD by simp
    show "nat n \<le> length (output_buf ?s1)" using len1 lout by simp
    show "\<forall>i. j + 1 \<le> i \<and> i \<le> ?e \<longrightarrow> decrypted_page bcrypt k ?f i \<noteq> None"
      using Suc.prems(8) by simp
  qed
  then obtain s' where r: "read_pages bcrypt p n (ofs div 4096) ?e (ofs mod 4096) (j + 1) ?s1 =
            Some (SQLITE_OK, s')"
    and o': "output_buf s' =
            take (nat (?bw + ?c)) (output_buf ?s1) @
            decrypted_range bcrypt k ?f (ofs + (?bw + ?c)) (n - (?bw + ?c)) @
            drop (nat n) (output_buf ?s1)"
    and l': "length (encrypted_buffer s') = 4096" "length (decrypted_buffer s') = 4096"
    by auto
  have step: "read_pages bcrypt p n (ofs div 4096) ?e (ofs mod 4096) j s = Some (SQLITE_OK, s')"
    by (subst read_pages.simps) (simp add: j2 rp nx r)
  have glue: "?piece @ decrypted_range bcrypt k ?f (ofs + (?bw + ?c)) (n - (?bw + ?c)) =
      decrypted_range bcrypt k ?f (ofs + ?bw) (n - ?bw)"
    using decrypted_range_append [of ?c "n - (?bw + ?c)" bcrypt k ?f "ofs + ?bw"] cpos bwc
    by (simp add: add.assoc)
  have "output_buf s' = take (nat ?bw) ?out @
            decrypted_range bcrypt k ?f (ofs + ?bw) (n - ?bw) @ drop (nat n) ?out"
    unfolding o' tk dr using glue by simp
  then show ?case using step l' by blast
qed

lemma read_pages_ok_pages:
  fixes ofs n :: int
  assumes k: "keys p = Some k"
    and f: "stores_whole_pages (real_file p)" and e: "length_preserving bcrypt"
    and o: "0 \<le> ofs" and n: "0 < n" and lim: "(ofs + n - 1) div 4096 < 2147483647"
  shows "m = nat ((ofs + n - 1) div 4096 + 1 - j) \<Longrightarrow>
     ofs div 4096 \<le> j \<Longrightarrow> j \<le> (ofs + n - 1) div 4096 + 1 \<Longrightarrow>
     length (encrypted_buffer s) = 4096 \<Longrightarrow> length (decrypted_buffer s) = 4096 \<Longrightarrow>
     read_pages bcrypt p n (ofs div 4096) ((ofs + n - 1) div 4096) (ofs mod 4096) j s =
       Some (SQLITE_OK, s') \<Longrightarrow>
     j \<le> i \<Longrightarrow> i \<le> (ofs + n - 1) div 4096 \<Longrightarrow>
     decrypted_page bcrypt k (real_file p) i \<noteq> None"
proof (induction m arbitrary: j s)
  case 0
  then show ?case by simp
next
  case (Suc m)
  let ?e = "(ofs + n - 1) div 4096"
  have j2: "j \<le> ?e" using Suc.prems by simp
  have "0 \<le> ofs div 4096" using o by (simp add: pos_imp_zdiv_nonneg_iff)
  then have j0: "0 \<le> j" using Suc.prems(2) by simp
  have nx: "int32 (j + 1) = j + 1"
    using j0 j2 lim by (intro int32_id) simp_all
  show ?case
  proof (cases "decrypted_page bcrypt k (real_file p) j")
    case None
    obtain rc s1 where rc: "rc \<noteq> SQLITE_OK"
      and rp: "read_page bcrypt p n (ofs div 4096) (ofs mod 4096) j s = Inl (rc, s1)"
      using read_page_bad [OF k None f Suc.prems(4)] by blast
    have "read_pages bcrypt p n (ofs div 4096) ?e (ofs mod 4096) j s = Some (rc, s1)"
      by (subst read_pages.simps) (simp add: j2 rp)
    then show ?thesis using Suc.prems(6) rc by simp
  next
    case (Some D)
    have lD: "length D = 4096" using decrypted_page_length [OF f e Some] .
    obtain raw where lr: "length raw = 4096"
      and rp: "read_page bcrypt p n (ofs div 4096) (ofs mod 4096) j s =
         Inr (s\<lparr>encrypted_buffer := raw, decrypted_buffer := D,
              output_buf := memcpy (output_buf s) (bytes_written s) D
                 (copy_offset (ofs div 4096) (ofs mod 4096) j)
                 (bytes_to_copy n (bytes_written s) (copy_offset (ofs div 4096) (ofs mod 4096) j)),
              bytes_written := bytes_written s +
                 bytes_to_copy n (bytes_written s) (copy_offset (ofs div 4096) (ofs mod 4096) j)\<rparr>)"
      (is "_ = Inr ?s1")
      using read_page_good [OF k Some f e Suc.prems(4,5)] by blast
    have st: "read_pages bcrypt p n (ofs div 4096) ?e (ofs mod 4096) (j + 1) ?s1 = Some (SQLITE_OK, s')"
      using Suc.prems(6) by (subst (asm) read_pages.simps) (simp add: j2 rp nx)
    show ?thesis
    proof (cases "i = j")
      case True
      then show ?thesis using Some by simp
    next
      case False
      show ?thesis
      proof (rule Suc.IH [of "j + 1" ?s1])
        show "m = nat (?e + 1 - (j + 1))" using Suc.prems(1) by simp
        show "ofs div 4096 \<le> j + 1" using Suc.prems(2) by simp
        show "j + 1 \<le> ?e + 1" using j2 by simp
        show "length (encrypted_buffer ?s1) = 4096" using lr by simp
        show "length (decrypted_buffer ?s1) = 4096" using lD by simp
        show "read_pages bcrypt p n (ofs div 4096) ?e (ofs mod 4096) (j + 1) ?s1 = Some (SQLITE_OK, s')"
          using st .
        show "j + 1 \<le> i" using False Suc.prems(7) by simp
        show "i \<le> ?e" using Suc.prems(8) .
      qed
    qed
  qed
qed

lemma wechat_read_keyed_unfold:
  fixes iOfst iAmt :: int
  assumes cb: "decrypt_cb p"
    and o: "0 \<le> iOfst" and n: "0 < iAmt" and lim: "iOfst + iAmt \<le> 8796093018112"
  shows "wechat_read bcrypt fresh p t zBuf iAmt iOfst =
     (case read_pages bcrypt p iAmt (iOfst div 4096) ((iOfst + iAmt - 1) div 4096) (iOfst mod 4096)
             (iOfst div 4096)
             \<lparr>encrypted_buffer = the (g_encrypted_buffer (ensure_buffers_allocated fresh t)),
              decrypted_buffer = the (g_decrypted_buffer (ensure_buffers_allocated fresh t)),
              output_buf = zBuf, bytes_written = 0\<rparr> of
        None \<Rightarrow> None
      | Some (rc, s) \<Rightarrow>
          Some (rc, output_buf s,
                \<lparr>g_encrypted_buffer = Some (encrypted_buffer s),
                 g_decrypted_buffer = Some (decrypted_buffer s)\<rparr>))"
  using cb by (simp add: wechat_read_def page_numbers(1-3) [OF o n lim] Let_def)

lemma wechat_read_good:
  fixes iOfst iAmt :: int
  assumes cb: "decrypt_cb p" and k: "keys p = Some k"
    and f: "stores_whole_pages (real_file p)" and e: "length_preserving bcrypt"
    and o: "0 \<le> iOfst" and n: "0 < iAmt" and lim: "iOfst + iAmt \<le> 8796093018112"
    and ps: "page_sized fresh t" and lz: "nat iAmt \<le> length zBuf"
    and good: "\<forall>i. iOfst div 4096 \<le> i \<and> i \<le> (iOfst + iAmt - 1) div 4096 \<longrightarrow>
                 decrypted_page bcrypt k (real_file p) i \<noteq> None"
  shows "\<exists>t'. wechat_read bcrypt fresh p t zBuf iAmt iOfst =
           Some (SQLITE_OK,
                 decrypted_range bcrypt k (real_file p) iOfst iAmt @ drop (nat iAmt) zBuf, t')"
proof -
  let ?s0 = "\<lparr>encrypted_buffer = the (g_encrypted_buffer (ensure_buffers_allocated fresh t)),
              decrypted_buffer = the (g_decrypted_buffer (ensure_buffers_allocated fresh t)),
              output_buf = zBuf, bytes_written = 0\<rparr>"
  note pn = page_numbers [OF o n lim]
  have "\<exists>s'. read_pages bcrypt p iAmt (iOfst div 4096) ((iOfst + iAmt - 1) div 4096)
            (iOfst mod 4096) (iOfst div 4096) ?s0 = Some (SQLITE_OK, s') \<and>
          output_buf s' =
            take (nat (bytes_written ?s0)) (output_buf ?s0) @
            decrypted_range bcrypt k (real_file p) (iOfst + bytes_written ?s0)
              (iAmt - bytes_written ?s0) @
            drop (nat iAmt) (output_buf ?s0) \<and>
          length (encrypted_buffer s') = 4096 \<and> length (decrypted_buffer s') = 4096"
  proof (rule read_pages_good [OF k f e o n pn(4) refl])
    show "iOfst div 4096 \<le> iOfst div 4096" by simp
    show "iOfst div 4096 \<le> (iOfst + iAmt - 1) div 4096 + 1" using pn(5) by simp
    show "bytes_written ?s0 = written_before iOfst iAmt (iOfst div 4096)"
      using written_before_start [OF o n] by simp
    show "length (encrypted_buffer ?s0) = 4096" using ps by (simp add: page_sized_def PAGE_SIZE_def)
    show "length (decrypted_buffer ?s0) = 4096" using ps by (simp add: page_sized_def PAGE_SIZE_def)
    show "nat iAmt \<le> length (output_buf ?s0)" using lz by simp
    show "\<forall>i. iOfst div 4096 \<le> i \<and> i \<le> (iOfst + iAmt - 1) div 4096 \<longrightarrow>
            decrypted_page bcrypt k (real_file p) i \<noteq> None"
      using good .
  qed
  then obtain s' where r: "read_pages bcrypt p iAmt (iOfst div 4096) ((iOfst + iAmt - 1) div 4096)
            (iOfst mod 4096) (iOfst div 4096) ?s0 = Some (SQLITE_OK, s')"
    and out: "output_buf s' =
        decrypted_range bcrypt k (real_file p) iOfst iAmt @ drop (nat iAmt) zBuf"
    by auto
  show ?thesis
    unfolding wechat_read_keyed_unfold [OF cb o n lim] r using out by simp
qed

lemma wechat_read_ok_pages:
  fixes iOfst iAmt :: int
  assumes cb: "decrypt_cb p" and k: "keys p = Some k"
    and f: "stores_whole_pages (real_file p)" and e: "length_preserving bcrypt"
    and o: "0 \<le> iOfst" and n: "0 < iAmt" and lim: "iOfst + iAmt \<le> 8796093018112"
    and ps: "page_sized fresh t"
    and ok: "wechat_read bcrypt fresh p t zBuf iAmt iOfst = Some (SQLITE_OK, out, t')"
    and i: "iOfst div 4096 \<le> i" "i \<le> (iOfst + iAmt - 1) div 4096"
  shows "decrypted_page bcrypt k (real_file p) i \<noteq> None"
proof -
  let ?s0 = "\<lparr>encrypted_buffer = the (g_encrypted_buffer (ensure_buffers_allocated fresh t)),
              decrypted_buffer = the (g_decrypted_buffer (ensure_buffers_allocated fresh t)),
              output_buf = zBuf, bytes_written = 0\<rparr>"
  note pn = page_numbers [OF o n lim]
  obtain s' where r: "read_pages bcrypt p iAmt (iOfst div 4096) ((iOfst + iAmt - 1) div 4096)
            (iOfst mod 4096) (iOfst div 4096) ?s0 = Some (SQLITE_OK, s')"
    using ok unfolding wechat_read_keyed_unfold [OF cb o n lim]
    by (auto split: option.splits)
  show ?thesis
  proof (rule read_pages_ok_pages [OF k f e o n pn(4) refl _ _ _ _ r i])
    show "iOfst div 4096 \<le> iOfst div 4096" by simp
    show "iOfst div 4096 \<le> (iOfst + iAmt - 1) div 4096 + 1" using pn(5) by simp
    show "length (encrypted_buffer ?s0) = 4096" using ps by (simp add: page_sized_def PAGE_SIZE_def)
    show "length (decrypted_buffer ?s0) = 4096" using ps by (simp add: page_sized_def PAGE_SIZE_def)
  qed
qed

lemma keyed_read_output:
  fixes iOfst iAmt :: int
  assumes cb: "decrypt_cb p" and k: "keys p = Some k"
    and f: "stores_whole_pages (real_file p)" and e: "length_preserving bcrypt"
    and o: "0 \<le> iOfst" and n: "0 < iAmt" and lim: "iOfst + iAmt \<le> 8796093018112"
    and ps: "page_sized fresh t" and lz: "nat iAmt \<le> length zBuf"
    and ok: "wechat_read bcrypt fresh p t zBuf iAmt iOfst = Some (SQLITE_OK, out, t')"
  shows "out = decrypted_range bcrypt k (real_file p) iOfst iAmt @ drop (nat iAmt) zBuf \<and>
         length out = length zBuf \<and>
         take (nat iAmt) out = decrypted_range bcrypt k (real_file p) iOfst iAmt \<and>
         drop (nat iAmt) out = drop (nat iAmt) zBuf"
proof -
  have good: "\<forall>i. iOfst div 4096 \<le> i \<and> i \<le> (iOfst + iAmt - 1) div 4096 \<longrightarrow>
                 decrypted_page bcrypt k (real_file p) i \<noteq> None"
    using wechat_read_ok_pages [OF cb k f e o n lim ps ok] by blast
  obtain t'' where "wechat_read bcrypt fresh p t zBuf iAmt iOfst =
           Some (SQLITE_OK,
                 decrypted_range bcrypt k (real_file p) iOfst iAmt @ drop (nat iAmt) zBuf, t'')"
    using wechat_read_good [OF cb k f e o n lim ps lz good] by blast
  then have out: "out = decrypted_range bcrypt k (real_file p) iOfst iAmt @ drop (nat iAmt) zBuf"
    using ok by simp
  show ?thesis
    using lz by (simp add: out length_decrypted_range)
qed

text \<open>
  Facts about the example file of two pages.
\<close>

lemma stores_whole_pages_disk_file: "stores_whole_pages (disk_file content)"
  by (auto simp add: stores_whole_pages_def disk_file_def status_defs PAGE_SIZE_def split: if_splits)

lemma page_sized_fresh: "page_sized fresh_memory no_buffers"
  by (simp add: page_sized_def fresh_memory_def no_buffers_def ensure_buffers_allocated_def PAGE_SIZE_def)

lemma two_page_handle_facts:
  "decrypt_cb two_page_handle" "keys two_page_handle = Some example_keys"
  "stores_whole_pages (real_file two_page_handle)"
  by (simp_all add: two_page_handle_def example_handle_def stores_whole_pages_disk_file)

lemma two_page_first:
  "read_page toy_cng two_page_handle 20 0 4086 0
      \<lparr>encrypted_buffer = replicate 4096 170, decrypted_buffer = replicate 4096 187,
         output_buf = replicate 20 9, bytes_written = 0\<rparr> =
      Inr \<lparr>encrypted_buffer = example_page,
           decrypted_buffer = replicate 4000 1 @ replicate 16 1 @ replicate 64 2 @ replicate 16 0,
           output_buf = replicate 10 0 @ replicate 10 9, bytes_written = 10\<rparr>"
  apply (simp add: read_page_def copy_offset_def bytes_to_copy_def two_page_handle_def
      example_handle_def disk_file_def status_defs layout_defs)
  apply (simp add: example_page_def store_at_def)
  apply (simp add: decrypt_page_def aes_decrypt_cbc_def toy_cng_def example_keys_def iv_def
      offset_def encrypted_len_def layout_defs)
  apply (simp add: store_at_def memcpy_def memset_def layout_defs Let_def copy_offset_def
        bytes_to_copy_def)
  done

lemma two_page_second:
  "read_page toy_cng two_page_handle 20 0 4086 1
      \<lparr>encrypted_buffer = example_page,
           decrypted_buffer = replicate 4000 1 @ replicate 16 1 @ replicate 64 2 @ replicate 16 0,
           output_buf = replicate 10 0 @ replicate 10 9, bytes_written = 10\<rparr> =
      Inr \<lparr>encrypted_buffer = example_page,
           decrypted_buffer = replicate 4016 1 @ replicate 16 1 @ replicate 64 2,
           output_buf = replicate 10 0 @ replicate 10 1, bytes_written = 20\<rparr>"
  apply (simp add: read_page_def copy_offset_def bytes_to_copy_def two_page_handle_def
      example_handle_def disk_file_def status_defs layout_defs)
  apply (simp add: example_page_def store_at_def)
  apply (simp add: decrypt_page_def aes_decrypt_cbc_def toy_cng_def example_keys_def iv_def
      offset_def encrypted_len_def layout_defs)
  apply (simp add: store_at_def memcpy_def memset_def layout_defs Let_def copy_offset_def
        bytes_to_copy_def)
  done

lemma two_page_read:
  "wechat_read toy_cng fresh_memory two_page_handle no_buffers (replicate 20 9) 20 4086 =
     Some (SQLITE_OK, replicate 10 0 @ replicate 10 1,
       \<lparr>g_encrypted_buffer = Some example_page,
        g_decrypted_buffer = Some (replicate 4016 1 @ replicate 16 1 @ replicate 64 2)\<rparr>)"
  apply (simp add: wechat_read_def two_page_handle_facts no_buffers_def fresh_memory_def
      ensure_buffers_allocated_def signed_divide_int_def signed_modulo_int_def int32_def int64_def
      layout_defs)
  apply (subst read_pages.simps)
  apply (simp add: two_page_first)
  apply (subst read_pages.simps)
  apply (simp add: int32_def two_page_second)
  apply (subst read_pages.simps)
  apply (simp add: int32_def)
  done

text \<open>
  C10, below the limit of the page counter. A read with keys of \<open>iAmt > 0\<close> bytes at an
  offset \<open>iOfst \<ge> 0\<close> with \<open>iOfst + iAmt \<le> (2 ^ 31 - 1) * 4096\<close> that returns
  \<open>SQLITE_OK\<close> has written exactly \<open>iAmt\<close> bytes, the bytes of the decrypted file
  from \<open>iOfst\<close> on, at the start of the caller's buffer, and has left every byte from
  index \<open>iAmt\<close> on as it was.
\<close>

theorem keyed_read_in_range:
  fixes iOfst iAmt :: int
  assumes cb: "decrypt_cb p" and k: "keys p = Some k"
    and f: "stores_whole_pages (real_file p)" and e: "length_preserving bcrypt"
    and o: "0 \<le> iOfst" and n: "0 < iAmt" and lim: "iOfst + iAmt \<le> 8796093018112"
    and ps: "page_sized fresh t" and lz: "nat iAmt \<le> length zBuf"
    and ok: "wechat_read bcrypt fresh p t zBuf iAmt iOfst = Some (SQLITE_OK, out, t')"
  shows "length out = length zBuf \<and>
         take (nat iAmt) out = decrypted_range bcrypt k (real_file p) iOfst iAmt \<and>
         length (decrypted_range bcrypt k (real_file p) iOfst iAmt) = nat iAmt \<and>
         drop (nat iAmt) out = drop (nat iAmt) zBuf"
  using keyed_read_output [OF cb k f e o n lim ps lz ok] lz
  by (simp add: length_decrypted_range)

theorem keyed_read_in_range_witness:
  "decrypt_cb two_page_handle \<and> keys two_page_handle = Some example_keys \<and>
   stores_whole_pages (real_file two_page_handle) \<and> length_preserving toy_cng \<and>
   page_sized fresh_memory no_buffers \<and>
   wechat_read toy_cng fresh_memory two_page_handle no_buffers (replicate 20 9) 20 4086 =
     Some (SQLITE_OK, replicate 10 0 @ replicate 10 1,
       \<lparr>g_encrypted_buffer = Some example_page,
        g_decrypted_buffer = Some (replicate 4016 1 @ replicate 16 1 @ replicate 64 2)\<rparr>) \<and>
   decrypted_range toy_cng example_keys (real_file two_page_handle) 4086 20 =
     replicate 10 0 @ replicate 10 1"
proof -
  have lz: "nat 20 \<le> length (replicate 20 (9 :: byte))" by simp
  have "take (nat 20) (replicate 10 0 @ replicate 10 1) =
      decrypted_range toy_cng example_keys (real_file two_page_handle) 4086 20"
    using keyed_read_in_range [OF two_page_handle_facts length_preserving_toy _ _ _
        page_sized_fresh lz two_page_read]
    by (simp add: length_decrypted_range)
  then have "decrypted_range toy_cng example_keys (real_file two_page_handle) 4086 20 =
      replicate 10 0 @ replicate 10 1"
    by simp
  then show ?thesis
    using two_page_handle_facts length_preserving_toy page_sized_fresh two_page_read by simp
qed

text \<open>
  C5, below the limit of the page counter. When a read with keys of \<open>m + n\<close> bytes at
  \<open>iOfst\<close> returns \<open>SQLITE_OK\<close>, the reads of \<open>m\<close> bytes at \<open>iOfst\<close> and of
  \<open>n\<close> bytes at \<open>iOfst + m\<close> return \<open>SQLITE_OK\<close> too, whatever the buffers
  hold before, and their outputs one after the other are the output of the single read.
\<close>

theorem split_reads_agree:
  fixes iOfst m n :: int
  assumes cb: "decrypt_cb p" and k: "keys p = Some k"
    and f: "stores_whole_pages (real_file p)" and e: "length_preserving bcrypt"
    and o: "0 \<le> iOfst" and m: "0 < m" and n: "0 < n"
    and lim: "iOfst + (m + n) \<le> 8796093018112"
    and ps: "page_sized fresh t" and lz: "nat (m + n) \<le> length zBuf"
    and ps1: "page_sized fresh1 t1" and lz1: "nat m \<le> length zBuf1"
    and ps2: "page_sized fresh2 t2" and lz2: "nat n \<le> length zBuf2"
    and ok: "wechat_read bcrypt fresh p t zBuf (m + n) iOfst = Some (SQLITE_OK, out, t')"
  shows "\<exists>out1 t1' out2 t2'.
           wechat_read bcrypt fresh1 p t1 zBuf1 m iOfst = Some (SQLITE_OK, out1, t1') \<and>
           wechat_read bcrypt fresh2 p t2 zBuf2 n (iOfst + m) = Some (SQLITE_OK, out2, t2') \<and>
           take (nat (m + n)) out = take (nat m) out1 @ take (nat n) out2"
proof -
  let ?f = "real_file p"
  have mn: "0 < m + n" using m n by simp
  have good: "\<And>i. iOfst div 4096 \<le> i \<Longrightarrow> i \<le> (iOfst + (m + n) - 1) div 4096 \<Longrightarrow>
                 decrypted_page bcrypt k ?f i \<noteq> None"
    using wechat_read_ok_pages [OF cb k f e o mn lim ps ok] by blast
  have whole: "take (nat (m + n)) out = decrypted_range bcrypt k ?f iOfst (m + n)"
    using keyed_read_output [OF cb k f e o mn lim ps lz ok] by blast
  have lim1: "iOfst + m \<le> 8796093018112" using lim n by simp
  have e1: "(iOfst + m - 1) div 4096 \<le> (iOfst + (m + n) - 1) div 4096"
    using n by (intro zdiv_mono1) simp_all
  have good1: "\<forall>i. iOfst div 4096 \<le> i \<and> i \<le> (iOfst + m - 1) div 4096 \<longrightarrow>
                 decrypted_page bcrypt k ?f i \<noteq> None"
    using good e1 by auto
  obtain t1' where r1: "wechat_read bcrypt fresh1 p t1 zBuf1 m iOfst =
      Some (SQLITE_OK, decrypted_range bcrypt k ?f iOfst m @ drop (nat m) zBuf1, t1')"
    using wechat_read_good [OF cb k f e o m lim1 ps1 lz1 good1] by blast
  have o2: "0 \<le> iOfst + m" using o m by simp
  have lim2: "iOfst + m + n \<le> 8796093018112" using lim by simp
  have s2: "iOfst div 4096 \<le> (iOfst + m) div 4096"
    using m by (intro zdiv_mono1) simp_all
  have good2: "\<forall>i. (iOfst + m) div 4096 \<le> i \<and> i \<le> (iOfst + m + n - 1) div 4096 \<longrightarrow>
                 decrypted_page bcrypt k ?f i \<noteq> None"
    using good s2 by (auto simp add: add.assoc)
  obtain t2' where r2: "wechat_read bcrypt fresh2 p t2 zBuf2 n (iOfst + m) =
      Some (SQLITE_OK, decrypted_range bcrypt k ?f (iOfst + m) n @ drop (nat n) zBuf2, t2')"
    using wechat_read_good [OF cb k f e o2 n lim2 ps2 lz2 good2] by blast
  have "take (nat (m + n)) out =
      take (nat m) (decrypted_range bcrypt k ?f iOfst m @ drop (nat m) zBuf1) @
      take (nat n) (decrypted_range bcrypt k ?f (iOfst + m) n @ drop (nat n) zBuf2)"
    using m n by (simp add: whole decrypted_range_append length_decrypted_range)
  then show ?thesis using r1 r2 by blast
qed

theorem split_reads_agree_witness:
  "wechat_read toy_cng fresh_memory two_page_handle no_buffers (replicate 20 9) (10 + 10) 4086 =
     Some (SQLITE_OK, replicate 10 0 @ replicate 10 1,
       \<lparr>g_encrypted_buffer = Some example_page,
        g_decrypted_buffer = Some (replicate 4016 1 @ replicate 16 1 @ replicate 64 2)\<rparr>) \<and>
   (\<exists>out1 t1' out2 t2'.
      wechat_read toy_cng fresh_memory two_page_handle no_buffers (replicate 10 9) 10 4086 =
        Some (SQLITE_OK, out1, t1') \<and>
      wechat_read toy_cng fresh_memory two_page_handle no_buffers (replicate 10 9) 10 (4086 + 10) =
        Some (SQLITE_OK, out2, t2') \<and>
      take (nat (10 + 10)) (replicate 10 0 @ replicate 10 1) = take (nat 10) out1 @ take (nat 10) out2)"
proof -
  have ok: "wechat_read toy_cng fresh_memory two_page_handle no_buffers (replicate 20 9) (10 + 10) 4086 =
     Some (SQLITE_OK, replicate 10 0 @ replicate 10 1,
       \<lparr>g_encrypted_buffer = Some example_page,
        g_decrypted_buffer = Some (replicate 4016 1 @ replicate 16 1 @ replicate 64 2)\<rparr>)"
    using two_page_read by simp
  have lz: "nat (10 + 10) \<le> length (replicate 20 (9 :: byte))" by simp
  have lz1: "nat 10 \<le> length (replicate 10 (9 :: byte))" by simp
  show ?thesis
    using split_reads_agree [OF two_page_handle_facts length_preserving_toy _ _ _ _
        page_sized_fresh lz page_sized_fresh lz1 page_sized_fresh lz1 ok] ok
    by simp
qed

text \<open>
  The example of C5, below the limit of the page counter. A read with keys of 20 bytes at \<open>PAGE_SIZE - 10\<close> bytes
  into page \<open>K\<close> that returns \<open>SQLITE_OK\<close> gives the last 10 bytes of the decrypted
  page \<open>K\<close> and then the first 10 bytes of the decrypted page \<open>K + 1\<close>.
\<close>

theorem read_across_page_boundary:
  fixes K :: int
  assumes cb: "decrypt_cb p" and k: "keys p = Some k"
    and f: "stores_whole_pages (real_file p)" and e: "length_preserving bcrypt"
    and K: "0 \<le> K" "K < 2147483645"
    and ps: "page_sized fresh t" and lz: "20 \<le> length zBuf"
    and ok: "wechat_read bcrypt fresh p t zBuf 20 (K * PAGE_SIZE + (PAGE_SIZE - 10)) =
               Some (SQLITE_OK, out, t')"
  shows "\<exists>page_K page_K1.
           decrypted_page bcrypt k (real_file p) K = Some page_K \<and>
           decrypted_page bcrypt k (real_file p) (K + 1) = Some page_K1 \<and>
           length page_K = 4096 \<and> length page_K1 = 4096 \<and>
           take 20 out = drop (length page_K - 10) page_K @ take 10 page_K1"
proof -
  let ?f = "real_file p"
  let ?o = "K * 4096 + 4086"
  have ok': "wechat_read bcrypt fresh p t zBuf 20 ?o = Some (SQLITE_OK, out, t')"
    using ok by (simp add: PAGE_SIZE_def)
  have o: "0 \<le> ?o" using K by simp
  have n: "(0 :: int) < 20" by simp
  have lim: "?o + 20 \<le> 8796093018112" using K by simp
  have lz': "nat 20 \<le> length zBuf" using lz by simp
  have d1: "?o div 4096 = K" by simp
  have d2: "(?o + 20 - 1) div 4096 = K + 1"
  proof -
    have "?o + 20 - 1 = (K + 1) * 4096 + 9" by (simp add: algebra_simps)
    then show ?thesis by simp
  qed
  have gK: "decrypted_page bcrypt k ?f K \<noteq> None"
    using wechat_read_ok_pages [OF cb k f e o n lim ps ok', of K] d1 d2 by simp
  have gK1: "decrypted_page bcrypt k ?f (K + 1) \<noteq> None"
    using wechat_read_ok_pages [OF cb k f e o n lim ps ok', of "K + 1"] d1 d2 by simp
  obtain page_K page_K1 where pk: "decrypted_page bcrypt k ?f K = Some page_K"
    and pk1: "decrypted_page bcrypt k ?f (K + 1) = Some page_K1"
    using gK gK1 by auto
  have lk: "length page_K = 4096" using decrypted_page_length [OF f e pk] .
  have lk1: "length page_K1 = 4096" using decrypted_page_length [OF f e pk1] .
  have whole: "take 20 out = decrypted_range bcrypt k ?f ?o 20"
    using keyed_read_output [OF cb k f e o n lim ps lz' ok'] by (simp add: length_decrypted_range)
  have sp: "decrypted_range bcrypt k ?f ?o 20 =
      decrypted_range bcrypt k ?f ?o 10 @ decrypted_range bcrypt k ?f (?o + 10) 10"
    using decrypted_range_append [of 10 10 bcrypt k ?f ?o] by simp
  have a: "decrypted_range bcrypt k ?f ?o 10 = take (nat 10) (drop (nat 4086) page_K)"
    using slice_of_page [OF pk lk, of 4086 10] by simp
  have b: "decrypted_range bcrypt k ?f (?o + 10) 10 = take (nat 10) (drop (nat 0) page_K1)"
  proof -
    have "?o + 10 = (K + 1) * 4096 + 0" by (simp add: algebra_simps)
    then have "decrypted_range bcrypt k ?f (?o + 10) 10 =
        decrypted_range bcrypt k ?f ((K + 1) * 4096 + 0) 10"
      by (rule arg_cong)
    also have "\<dots> = take (nat 10) (drop (nat 0) page_K1)"
      using slice_of_page [OF pk1 lk1, of 0 10] by simp
    finally show ?thesis .
  qed
  have "take 20 out = drop (length page_K - 10) page_K @ take 10 page_K1"
    unfolding whole sp a b using lk by simp
  then show ?thesis using pk pk1 lk lk1 by blast
qed

theorem read_across_page_boundary_witness:
  "wechat_read toy_cng fresh_memory two_page_handle no_buffers (replicate 20 9) 20
       (0 * PAGE_SIZE + (PAGE_SIZE - 10)) =
     Some (SQLITE_OK, replicate 10 0 @ replicate 10 1,
       \<lparr>g_encrypted_buffer = Some example_page,
        g_decrypted_buffer = Some (replicate 4016 1 @ replicate 16 1 @ replicate 64 2)\<rparr>) \<and>
   (\<exists>page_K page_K1.
      decrypted_page toy_cng example_keys (real_file two_page_handle) 0 = Some page_K \<and>
      decrypted_page toy_cng example_keys (real_file two_page_handle) (0 + 1) = Some page_K1 \<and>
      length page_K = 4096 \<and> length page_K1 = 4096 \<and>
      take 20 (replicate 10 0 @ replicate 10 1) = drop (length page_K - 10) page_K @ take 10 page_K1)"
proof -
  have ok: "wechat_read toy_cng fresh_memory two_page_handle no_buffers (replicate 20 9) 20
       (0 * PAGE_SIZE + (PAGE_SIZE - 10)) =
     Some (SQLITE_OK, replicate 10 0 @ replicate 10 1,
       \<lparr>g_encrypted_buffer = Some example_page,
        g_decrypted_buffer = Some (replicate 4016 1 @ replicate 16 1 @ replicate 64 2)\<rparr>)"
    using two_page_read by (simp add: PAGE_SIZE_def)
  have lz: "20 \<le> length (replicate 20 (9 :: byte))" by simp
  show ?thesis
    using read_across_page_boundary [OF two_page_handle_facts length_preserving_toy _ _
        page_sized_fresh lz ok] ok
    by simp
qed

subsection \<open>Reads at the limit of the page counter\<close>

text \<open>
  C10, at the limit: offset \<open>2 ^ 43 - 10\<close>. The page numbers are narrowed to a 32-bit
  \<open>int\<close>. For 20 bytes at offset 8796093022198 the start page is \<open>2 ^ 31 - 1\<close> and
  the end page, \<open>2 ^ 31\<close> before the cast, becomes \<open>- 2 ^ 31\<close>: the loop body never
  runs, and the read returns \<open>SQLITE_OK\<close> with the caller's buffer as it was given,
  whatever the file and the keys.
\<close>

theorem read_past_page_limit_writes_nothing:
  assumes "decrypt_cb p"
  shows "wechat_read bcrypt fresh p t zBuf 20 8796093022198 =
           Some (SQLITE_OK, zBuf, ensure_buffers_allocated fresh t)"
  using assms
  apply (simp add: wechat_read_def layout_defs signed_divide_int_def int32_def int64_def)
  apply (subst read_pages.simps)
  apply (simp add: ensure_buffers_allocated_def split: option.splits)
  done

theorem read_past_page_limit_writes_nothing_witness:
  "decrypt_cb (example_handle (disk_file example_page) (Some example_keys) True) \<and>
   wechat_read toy_cng fresh_memory
     (example_handle (disk_file example_page) (Some example_keys) True)
     no_buffers (replicate 20 9) 20 8796093022198 =
   Some (SQLITE_OK, replicate 20 9,
     \<lparr>g_encrypted_buffer = Some (replicate 4096 170), g_decrypted_buffer = Some (replicate 4096 187)\<rparr>)"
proof -
  have c: "decrypt_cb (example_handle (disk_file example_page) (Some example_keys) True)"
    by (simp add: example_handle_def)
  show ?thesis
    using read_past_page_limit_writes_nothing [OF c, of toy_cng fresh_memory no_buffers "replicate 20 9"] c
    by (simp add: ensure_buffers_allocated_def no_buffers_def fresh_memory_def)
qed

text \<open>
  C5, at the limit: offset \<open>2 ^ 43 - 10\<close>. On a file that has the pages, the read of
  20 bytes returns \<open>SQLITE_OK\<close> and delivers nothing. The same range read as 10 bytes
  and 10 bytes gives something else: the first read delivers the last 10 bytes of page
  \<open>2 ^ 31 - 1\<close> (its counter then wraps to page \<open>- 2 ^ 31\<close>, which the file
  refuses to read), and the second one looks for page \<open>2 ^ 31\<close> at a negative offset
  and delivers nothing.
\<close>

theorem split_at_page_limit_differs:
  "map_option (\<lambda>r. (fst r, fst (snd r)))
     (wechat_read toy_cng fresh_memory (example_handle huge_file (Some example_keys) True)
        no_buffers (replicate 20 9) 20 8796093022198) =
     Some (SQLITE_OK, replicate 20 9) \<and>
   map_option (\<lambda>r. (fst r, fst (snd r)))
     (wechat_read toy_cng fresh_memory (example_handle huge_file (Some example_keys) True)
        no_buffers (replicate 10 9) 10 8796093022198) =
     Some (SQLITE_IOERR_SHORT_READ, replicate 10 7) \<and>
   map_option (\<lambda>r. (fst r, fst (snd r)))
     (wechat_read toy_cng fresh_memory (example_handle huge_file (Some example_keys) True)
        no_buffers (replicate 10 9) 10 8796093022208) =
     Some (SQLITE_IOERR_SHORT_READ, replicate 10 9)"
proof -
  let ?p = "example_handle huge_file (Some example_keys) True"
  have w: "wechat_read toy_cng fresh_memory ?p no_buffers (replicate 20 9) 20 8796093022198 =
      Some (SQLITE_OK, replicate 20 9, ensure_buffers_allocated fresh_memory no_buffers)"
    apply (simp add: wechat_read_def example_handle_def layout_defs signed_divide_int_def int32_def int64_def)
    apply (subst read_pages.simps)
    apply (simp add: ensure_buffers_allocated_def no_buffers_def)
    done
  have a: "map_option (\<lambda>r. (fst r, fst (snd r)))
     (wechat_read toy_cng fresh_memory ?p no_buffers (replicate 10 9) 10 8796093022198) =
     Some (SQLITE_IOERR_SHORT_READ, replicate 10 7)"
    apply (simp add: read_eval layout_defs)
    apply (subst read_pages.simps)
    apply (simp add: read_page_def copy_offset_def bytes_to_copy_def huge_file_def disk_file_def
        status_defs layout_defs)
    apply (simp add: store_at_def)
    apply (simp add: decrypt_page_def aes_decrypt_cbc_def toy_cng_def example_keys_def iv_def
        offset_def encrypted_len_def layout_defs)
    apply (simp add: store_at_def memcpy_def memset_def layout_defs Let_def copy_offset_def
        bytes_to_copy_def)
    apply (subst read_pages.simps)
    apply (simp add: int32_def read_page_def copy_offset_def bytes_to_copy_def huge_file_def
        disk_file_def status_defs layout_defs)
    done
  have b: "map_option (\<lambda>r. (fst r, fst (snd r)))
     (wechat_read toy_cng fresh_memory ?p no_buffers (replicate 10 9) 10 8796093022208) =
     Some (SQLITE_IOERR_SHORT_READ, replicate 10 9)"
    apply (simp add: read_eval layout_defs)
    apply (subst read_pages.simps)
    apply (simp add: read_page_def huge_file_def disk_file_def page_eval status_defs)
    done
  show ?thesis using w a b by simp
qed

end
